theory Spec2Isabelle
  imports Complex_Main "HOL-Library.Multiset" "HOL-Library.Log_Nat"
begin

section \<open>Data model\<close>

text \<open>
  A finite TypeScript \<^verbatim>\<open>number\<close> is a \<^typ>\<open>real\<close>; array lengths and indices are
  \<^typ>\<open>nat\<close>.  The arithmetic on the bounds of a box in the editor (move, resize,
  Dimension-Sync) is binary64 arithmetic: every sum, difference, product and quotient is
  rounded by \<open>fl\<close> below, and the pointer deltas can be infinite or NaN.  The pixel
  arithmetic of the grid organizer and the one addition of the zoom are kept exact.
\<close>

text \<open>\<^verbatim>\<open>interface BoundingBox { ymin; xmin; ymax; xmax }\<close> (imageProcessor.ts).\<close>

record BoundingBox =
  ymin :: real
  xmin :: real
  ymax :: real
  xmax :: real

text \<open>
  The element type of \<^verbatim>\<open>pixelBoxes\<close> in \<^verbatim>\<open>organizeBoxes\<close>: the box spread into an
  object with the pixel fields \<^verbatim>\<open>y, x, w, h, cy, cx\<close> (here with the prefix \<open>pix_\<close>).
\<close>

record PixelBox = BoundingBox +
  pix_y :: real
  pix_x :: real
  pix_w :: real
  pix_h :: real
  pix_cy :: real
  pix_cx :: real

text \<open>The element type of \<^verbatim>\<open>sortedBoxes\<close>: \<^verbatim>\<open>{ box, row, col }\<close>.\<close>

record GridItem =
  box :: PixelBox
  row :: nat
  col :: nat

text \<open>The value returned by \<^verbatim>\<open>organizeBoxes\<close>: \<^verbatim>\<open>{ sortedBoxes, rows, cols }\<close>.\<close>

record Organized =
  sortedBoxes :: "GridItem list"
  rows :: nat
  cols :: nat

section \<open>Binary64 arithmetic\<close>

text \<open>
  Rounding to the nearest integer, ties to the even one.
\<close>

definition roundEven :: "real \<Rightarrow> int" where
  "roundEven y =
     (let f = \<lfloor>y\<rfloor>; d = y - of_int f
      in if d < 1 / 2 then f else if 1 / 2 < d then f + 1 else if even f then f else f + 1)"

text \<open>
  The binary64 numbers are the \<open>m * 2 powi k\<close> with an integer \<open>m\<close> of at most 53 bits and
  \<open>k\<close> not below \<open>emin\<close>.  \<open>binade x\<close> is the exponent \<open>k\<close> at which \<open>x\<close> has a 53-bit
  significand (\<open>emin\<close> for the subnormal numbers), and \<open>fl x\<close> rounds \<open>x\<close> to the nearest
  binary64 number, ties to even, as every arithmetic operation of JavaScript does with
  its exact result.  The exponent has no upper limit here: the overflow to Infinity
  beyond \<open>2 ^ 1024\<close> is not modelled.
\<close>

definition emin :: int where
  "emin = - 1074"

definition binade :: "real \<Rightarrow> int" where
  "binade x = max (bitlen \<lfloor>\<bar>x\<bar> * 2 ^ nat (- emin)\<rfloor> - 53) 0 + emin"

definition fl :: "real \<Rightarrow> real" where
  "fl x = of_int (roundEven (x / 2 powi binade x)) * 2 powi binade x"

text \<open>
  A \<^verbatim>\<open>number\<close> that may be infinite or NaN, and the operations of the editor that can
  meet one: the division by the size of the container, which is zero or positive, the
  multiplication by a positive constant, the addition to a finite number, and
  \<^verbatim>\<open>Math.min\<close> and \<^verbatim>\<open>Math.max\<close> with a finite first argument.
\<close>

datatype Num = Finite real | PosInfinity | NegInfinity | NotANumber

definition jsDivide :: "real \<Rightarrow> real \<Rightarrow> Num" where
  "jsDivide a b =
     (if b = 0
      then (if 0 < a then PosInfinity else if a < 0 then NegInfinity else NotANumber)
      else Finite (fl (a / b)))"

fun jsTimes :: "Num \<Rightarrow> real \<Rightarrow> Num" where
  "jsTimes (Finite a) c = Finite (fl (a * c))"
| "jsTimes PosInfinity c = PosInfinity"
| "jsTimes NegInfinity c = NegInfinity"
| "jsTimes NotANumber c = NotANumber"

fun jsPlus :: "real \<Rightarrow> Num \<Rightarrow> Num" where
  "jsPlus a (Finite d) = Finite (fl (a + d))"
| "jsPlus a PosInfinity = PosInfinity"
| "jsPlus a NegInfinity = NegInfinity"
| "jsPlus a NotANumber = NotANumber"

fun mathMin :: "real \<Rightarrow> Num \<Rightarrow> Num" where
  "mathMin a (Finite v) = Finite (min a v)"
| "mathMin a PosInfinity = Finite a"
| "mathMin a NegInfinity = NegInfinity"
| "mathMin a NotANumber = NotANumber"

fun mathMax :: "real \<Rightarrow> Num \<Rightarrow> Num" where
  "mathMax a (Finite v) = Finite (max a v)"
| "mathMax a PosInfinity = PosInfinity"
| "mathMax a NegInfinity = Finite a"
| "mathMax a NotANumber = NotANumber"

text \<open>The value of a finite number, to be stored in a box.\<close>

fun finite :: "Num \<Rightarrow> real option" where
  "finite (Finite v) = Some v"
| "finite v = None"

section \<open>Grid organizer (imageProcessor.ts, organizeBoxes)\<close>

text \<open>The callback of \<^verbatim>\<open>boxes.map\<close>, lines 185-193.\<close>

definition toPixelBox :: "real \<Rightarrow> real \<Rightarrow> BoundingBox \<Rightarrow> PixelBox" where
  "toPixelBox width height b =
     \<lparr> ymin = ymin b, xmin = xmin b, ymax = ymax b, xmax = xmax b,
       pix_y = (ymin b / 1000) * height,
       pix_x = (xmin b / 1000) * width,
       pix_w = ((xmax b - xmin b) / 1000) * width,
       pix_h = ((ymax b - ymin b) / 1000) * height,
       pix_cy = ((ymin b + ymax b) / 2000) * height,
       pix_cx = ((xmin b + xmax b) / 2000) * width \<rparr>"

text \<open>
  The loop of lines 202-211 followed by the final \<^verbatim>\<open>rows.push(currentRow)\<close> of line 212.
  The arguments are the loop's variables \<^verbatim>\<open>rows\<close>, \<^verbatim>\<open>currentRow\<close>, \<^verbatim>\<open>currentRowY\<close>
  and the boxes \<^verbatim>\<open>pixelBoxes[i..]\<close> still to visit.
\<close>

fun clusterRows ::
  "PixelBox list list \<Rightarrow> PixelBox list \<Rightarrow> real \<Rightarrow> PixelBox list \<Rightarrow> PixelBox list list" where
  "clusterRows rws currentRow currentRowY [] = rws @ [currentRow]"
| "clusterRows rws currentRow currentRowY (b # rest) =
     (if \<bar>pix_cy b - currentRowY\<bar> < pix_h b * 0.5
      then clusterRows rws (currentRow @ [b]) currentRowY rest
      else clusterRows (rws @ [currentRow]) [b] (pix_cy b) rest)"

text \<open>
  Lines 197-213: no row at all for an empty array, otherwise the loop started with the
  first box as the open row and its \<^verbatim>\<open>cy\<close> as the row's anchor.
\<close>

definition buildRows :: "PixelBox list \<Rightarrow> PixelBox list list" where
  "buildRows pixelBoxes =
     (case pixelBoxes of
        [] \<Rightarrow> []
      | b0 # rest \<Rightarrow> clusterRows [] [b0] (pix_cy b0) rest)"

text \<open>
  Lines 218-224, the part that fills \<^verbatim>\<open>sortedBoxes\<close>: every row is sorted by \<^verbatim>\<open>cx\<close> and
  its boxes are pushed with the row's index and their position in the sorted row.
  \<^verbatim>\<open>Array.prototype.sort\<close> is stable, as is \<^const>\<open>sort_key\<close>.
\<close>

definition emitRow :: "nat \<times> PixelBox list \<Rightarrow> GridItem list" where
  "emitRow = (\<lambda>(rowIndex, rowItems).
     map (\<lambda>(colIndex, b). \<lparr> box = b, row = rowIndex, col = colIndex \<rparr>)
         (enumerate 0 (sort_key pix_cx rowItems)))"

text \<open>Line 220: the running maximum \<^verbatim>\<open>maxCols\<close> over the rows.\<close>

definition maxColsOf :: "PixelBox list list \<Rightarrow> nat" where
  "maxColsOf rws =
     foldl (\<lambda>maxCols rowItems. if length rowItems > maxCols then length rowItems else maxCols)
           0 rws"

definition organizeBoxes :: "BoundingBox list \<Rightarrow> real \<Rightarrow> real \<Rightarrow> Organized" where
  "organizeBoxes bxs width height =
     (let pixelBoxes = sort_key pix_cy (map (toPixelBox width height) bxs);
          rws = buildRows pixelBoxes
      in \<lparr> sortedBoxes = concat (map emitRow (enumerate 0 rws)),
           rows = length rws,
           cols = maxColsOf rws \<rparr>)"

section \<open>Interactive box editor (CropAdjuster.tsx)\<close>

text \<open>The component's state variables, lines 16-31.\<close>

datatype Mode = Move | Resize

record EditSession =
  boxes :: "BoundingBox list"
  activeBoxIndex :: "nat option"
  selectedBoxIndex :: "nat option"
  interactionMode :: "Mode option"
  resizeHandle :: "string option"
  startPos :: "real \<times> real"
  startBoxState :: "BoundingBox option"
  scale :: real

text \<open>
  What a handler can run into.  \<open>TypeError\<close> is the exception JavaScript raises on a
  property read of \<^verbatim>\<open>undefined\<close>.  The other two are not exceptions of the source; they
  mark the places where the source leaves what this model can express: \<open>SparseArray\<close>, a
  write beyond the position after the last box (the array gets holes, a list has none),
  and \<open>NonFinite\<close>, a box one of whose bounds becomes NaN.
\<close>

datatype Fault = TypeError | SparseArray | NonFinite

text \<open>\<^verbatim>\<open>boxes[index]\<close>: \<^verbatim>\<open>undefined\<close> out of range.\<close>

definition boxAt :: "BoundingBox list \<Rightarrow> nat \<Rightarrow> BoundingBox option" where
  "boxAt bs index = (if index < length bs then Some (bs ! index) else None)"

text \<open>
  \<^verbatim>\<open>updateBox\<close>, lines 44-50, as the function given to \<^verbatim>\<open>setBoxes\<close>.  Both callers pass
  all four bounds, so the spread \<^verbatim>\<open>{ ...newBoxes[index], ...updates }\<close> is \<open>updates\<close>.  A
  write at the position after the last box appends.
\<close>

definition updateBox :: "nat \<Rightarrow> BoundingBox \<Rightarrow> BoundingBox list \<Rightarrow> Fault + BoundingBox list" where
  "updateBox index updates prev =
     (if index < length prev then Inr (prev[index := updates])
      else if index = length prev then Inr (prev @ [updates])
      else Inl SparseArray)"

text \<open>\<^verbatim>\<open>handleResizeStart\<close>, lines 52-64, and \<^verbatim>\<open>handleMoveStart\<close>, lines 66-76.\<close>

definition handleResizeStart :: "EditSession \<Rightarrow> nat \<Rightarrow> string \<Rightarrow> real \<Rightarrow> real \<Rightarrow> EditSession" where
  "handleResizeStart s index handle clientX clientY =
     s\<lparr> activeBoxIndex := Some index,
        selectedBoxIndex := Some index,
        interactionMode := Some Resize,
        resizeHandle := Some handle,
        startPos := (clientX, clientY),
        startBoxState := boxAt (boxes s) index \<rparr>"

definition handleMoveStart :: "EditSession \<Rightarrow> nat \<Rightarrow> real \<Rightarrow> real \<Rightarrow> EditSession" where
  "handleMoveStart s index clientX clientY =
     s\<lparr> activeBoxIndex := Some index,
        selectedBoxIndex := Some index,
        interactionMode := Some Move,
        resizeHandle := None,
        startPos := (clientX, clientY),
        startBoxState := boxAt (boxes s) index \<rparr>"

text \<open>
  The object passed to \<^verbatim>\<open>updateBox\<close> in the \<^verbatim>\<open>'move'\<close> branch, lines 95-103; \<open>None\<close>
  when a bound is NaN.
\<close>

definition moveBox :: "BoundingBox \<Rightarrow> Num \<Rightarrow> Num \<Rightarrow> BoundingBox option" where
  "moveBox b deltaX deltaY =
     (case (finite (mathMax 0 (mathMin (fl (1000 - fl (xmax b - xmin b))) (jsPlus (xmin b) deltaX))),
            finite (mathMax 0 (mathMin (fl (1000 - fl (ymax b - ymin b))) (jsPlus (ymin b) deltaY))))
      of (Some newXmin, Some newYmin) \<Rightarrow>
           Some \<lparr> ymin = newYmin,
                  xmin = newXmin,
                  ymax = fl (newYmin + fl (ymax b - ymin b)),
                  xmax = fl (newXmin + fl (xmax b - xmin b)) \<rparr>
       | _ \<Rightarrow> None)"

text \<open>
  The object passed to \<^verbatim>\<open>updateBox\<close> in the \<^verbatim>\<open>'resize'\<close> branch, lines 105-125; \<open>None\<close>
  when a bound is NaN.  \<^verbatim>\<open>resizeHandle.includes('w')\<close> is membership of the character in
  the string.  The \<^verbatim>\<open>'e'\<close> and \<^verbatim>\<open>'s'\<close> cases read the variables \<^verbatim>\<open>xmin\<close> and \<^verbatim>\<open>ymin\<close>
  that the \<^verbatim>\<open>'w'\<close> and \<^verbatim>\<open>'n'\<close> cases may have assigned before.
\<close>

definition minSize :: real where
  "minSize = 20"

definition resizeBox :: "string \<Rightarrow> BoundingBox \<Rightarrow> Num \<Rightarrow> Num \<Rightarrow> BoundingBox option" where
  "resizeBox handle b deltaX deltaY =
     Option.bind
       (if CHR ''w'' \<in> set handle
        then finite (mathMin (fl (xmax b - minSize)) (mathMax 0 (jsPlus (xmin b) deltaX)))
        else Some (xmin b))
       (\<lambda>xmin1. Option.bind
       (if CHR ''e'' \<in> set handle
        then finite (mathMax (fl (xmin1 + minSize)) (mathMin 1000 (jsPlus (xmax b) deltaX)))
        else Some (xmax b))
       (\<lambda>xmax1. Option.bind
       (if CHR ''n'' \<in> set handle
        then finite (mathMin (fl (ymax b - minSize)) (mathMax 0 (jsPlus (ymin b) deltaY)))
        else Some (ymin b))
       (\<lambda>ymin1. Option.bind
       (if CHR ''s'' \<in> set handle
        then finite (mathMax (fl (ymin1 + minSize)) (mathMin 1000 (jsPlus (ymax b) deltaY)))
        else Some (ymax b))
       (\<lambda>ymax1. Some \<lparr> ymin = ymin1, xmin = xmin1, ymax = ymax1, xmax = xmax1 \<rparr>))))"

text \<open>
  Lines 85-90: the pointer's distance from the start of the gesture, in pixels, scaled to
  the normalized range by the size of the container.
\<close>

definition pointerDelta :: "real \<Rightarrow> real \<Rightarrow> real \<Rightarrow> Num" where
  "pointerDelta client start rectSize = jsTimes (jsDivide (fl (client - start)) rectSize) 1000"

text \<open>
  \<^verbatim>\<open>handlePointerMove\<close>, lines 78-127.  \<open>clientX\<close>, \<open>clientY\<close> are the event's pointer
  position and \<open>rectWidth\<close>, \<open>rectHeight\<close> the size of the container's bounding rectangle
  (the container is mounted whenever the handler runs).  A \<^verbatim>\<open>resizeHandle\<close> that is
  \<^verbatim>\<open>null\<close> or the empty string is falsy.
\<close>

definition handlePointerMove ::
  "EditSession \<Rightarrow> real \<Rightarrow> real \<Rightarrow> real \<Rightarrow> real \<Rightarrow> Fault + EditSession" where
  "handlePointerMove s clientX clientY rectWidth rectHeight =
     (case (activeBoxIndex s, startBoxState s) of
        (Some active, Some b) \<Rightarrow>
          let deltaX = pointerDelta clientX (fst (startPos s)) rectWidth;
              deltaY = pointerDelta clientY (snd (startPos s)) rectHeight
          in if interactionMode s = Some Move then
               (case moveBox b deltaX deltaY of
                  None \<Rightarrow> Inl NonFinite
                | Some updates \<Rightarrow>
                    (case updateBox active updates (boxes s) of
                       Inl f \<Rightarrow> Inl f
                     | Inr bs \<Rightarrow> Inr (s\<lparr> boxes := bs \<rparr>)))
             else if interactionMode s = Some Resize
                     \<and> resizeHandle s \<noteq> None \<and> resizeHandle s \<noteq> Some [] then
               (case resizeBox (the (resizeHandle s)) b deltaX deltaY of
                  None \<Rightarrow> Inl NonFinite
                | Some updates \<Rightarrow>
                    (case updateBox active updates (boxes s) of
                       Inl f \<Rightarrow> Inl f
                     | Inr bs \<Rightarrow> Inr (s\<lparr> boxes := bs \<rparr>)))
             else Inr s
      | _ \<Rightarrow> Inr s)"

text \<open>\<^verbatim>\<open>handlePointerUp\<close>, lines 129-136.\<close>

definition handlePointerUp :: "EditSession \<Rightarrow> EditSession" where
  "handlePointerUp s =
     s\<lparr> activeBoxIndex := None, interactionMode := None, resizeHandle := None \<rparr>"

text \<open>
  \<^verbatim>\<open>handleDeleteBox\<close>, lines 138-142: \<^verbatim>\<open>prev.filter((_, i) => i !== index)\<close> and the
  test on the selection.
\<close>

definition handleDeleteBox :: "EditSession \<Rightarrow> nat \<Rightarrow> EditSession" where
  "handleDeleteBox s index =
     s\<lparr> boxes := map snd (filter (\<lambda>(i, _). i \<noteq> index) (enumerate 0 (boxes s))),
        selectedBoxIndex :=
          (if selectedBoxIndex s = Some index then None else selectedBoxIndex s) \<rparr>"

text \<open>\<^verbatim>\<open>handleReset\<close>, lines 144-148; \<open>initialBoxes\<close> is the component's property.\<close>

definition handleReset :: "BoundingBox list \<Rightarrow> EditSession \<Rightarrow> EditSession" where
  "handleReset initialBoxes s =
     s\<lparr> boxes := initialBoxes, selectedBoxIndex := None, scale := 1 \<rparr>"

text \<open>
  The bounds check of one axis in \<^verbatim>\<open>handleSyncSize\<close>.  Lines 174-186 (left, right) and
  lines 189-200 (top, bottom) are the same statements on the two axes; \<open>newMin\<close> and
  \<open>newMax\<close> are \<^verbatim>\<open>newXmin, newXmax\<close> there and \<^verbatim>\<open>newYmin, newYmax\<close> here.
\<close>

definition shiftAxis :: "real \<Rightarrow> real \<Rightarrow> real \<times> real" where
  "shiftAxis newMin0 newMax0 =
     (let (newMin1, newMax1) =
            (if newMin0 < 0
             then (let diff = fl (0 - newMin0) in (fl (newMin0 + diff), fl (newMax0 + diff)))
             else (newMin0, newMax0))
      in if newMax1 > 1000
         then (let diff = fl (newMax1 - 1000);
                   newMin2 = fl (newMin1 + diff);
                   newMax2 = fl (newMax1 + diff)
               in (if newMin2 < 0 then 0 else newMin2, newMax2))
         else (newMin1, newMax1))"

text \<open>The callback of \<^verbatim>\<open>boxes.map\<close> for a box that is not the source, lines 162-208.\<close>

definition syncTarget :: "real \<Rightarrow> real \<Rightarrow> BoundingBox \<Rightarrow> BoundingBox" where
  "syncTarget targetW targetH b =
     (let cx = fl (fl (xmin b + xmax b) / 2);
          cy = fl (fl (ymin b + ymax b) / 2);
          (newXmin, newXmax) = shiftAxis (fl (cx - fl (targetW / 2))) (fl (cx + fl (targetW / 2)));
          (newYmin, newYmax) = shiftAxis (fl (cy - fl (targetH / 2))) (fl (cy + fl (targetH / 2)))
      in b\<lparr> xmin := newXmin, xmax := newXmax, ymin := newYmin, ymax := newYmax \<rparr>)"

text \<open>
  \<^verbatim>\<open>handleSyncSize\<close>, lines 151-212.  With a selection index past the end of \<^verbatim>\<open>boxes\<close>,
  \<^verbatim>\<open>sourceBox\<close> is \<^verbatim>\<open>undefined\<close> and reading \<^verbatim>\<open>sourceBox.xmax\<close> raises.
\<close>

definition handleSyncSize :: "EditSession \<Rightarrow> Fault + EditSession" where
  "handleSyncSize s =
     (case selectedBoxIndex s of
        None \<Rightarrow> Inr s
      | Some sel \<Rightarrow>
          (case boxAt (boxes s) sel of
             None \<Rightarrow> Inl TypeError
           | Some sourceBox \<Rightarrow>
               let targetW = fl (xmax sourceBox - xmin sourceBox);
                   targetH = fl (ymax sourceBox - ymin sourceBox)
               in Inr (s\<lparr> boxes :=
                     map (\<lambda>(idx, b). if idx = sel then b else syncTarget targetW targetH b)
                         (enumerate 0 (boxes s)) \<rparr>)))"

text \<open>\<^verbatim>\<open>handleZoom\<close>, lines 214-219, and the wheel listener, lines 222-228.\<close>

datatype Direction = ZoomIn | ZoomOut

definition handleZoom :: "Direction \<Rightarrow> EditSession \<Rightarrow> EditSession" where
  "handleZoom direction s =
     (let delta = (if direction = ZoomIn then 0.25 else - 0.25)
      in s\<lparr> scale := min (max 0.5 (scale s + delta)) 4 \<rparr>)"

definition handleWheel :: "bool \<Rightarrow> real \<Rightarrow> EditSession \<Rightarrow> EditSession" where
  "handleWheel ctrlKey wheelDeltaY s =
     (if ctrlKey
      then (let delta = wheelDeltaY * - 0.002
            in s\<lparr> scale := min (max 0.5 (scale s + delta)) 4 \<rparr>)
      else s)"

text \<open>
  The user's gestures, one constructor for each handler, and the session after a sequence
  of them.  A sequence stops at the first fault.
\<close>

datatype Event =
    ResizeStart nat string real real
  | MoveStart nat real real
  | PointerMove real real real real
  | PointerUp
  | DeleteBox nat
  | Reset
  | SyncSize
  | Zoom Direction
  | Wheel bool real

fun step :: "BoundingBox list \<Rightarrow> EditSession \<Rightarrow> Event \<Rightarrow> Fault + EditSession" where
  "step initialBoxes s (ResizeStart index handle clientX clientY) =
     Inr (handleResizeStart s index handle clientX clientY)"
| "step initialBoxes s (MoveStart index clientX clientY) =
     Inr (handleMoveStart s index clientX clientY)"
| "step initialBoxes s (PointerMove clientX clientY rectWidth rectHeight) =
     handlePointerMove s clientX clientY rectWidth rectHeight"
| "step initialBoxes s PointerUp = Inr (handlePointerUp s)"
| "step initialBoxes s (DeleteBox index) = Inr (handleDeleteBox s index)"
| "step initialBoxes s Reset = Inr (handleReset initialBoxes s)"
| "step initialBoxes s SyncSize = handleSyncSize s"
| "step initialBoxes s (Zoom direction) = Inr (handleZoom direction s)"
| "step initialBoxes s (Wheel ctrlKey wheelDeltaY) = Inr (handleWheel ctrlKey wheelDeltaY s)"

fun run :: "BoundingBox list \<Rightarrow> EditSession \<Rightarrow> Event list \<Rightarrow> Fault + EditSession" where
  "run initialBoxes s [] = Inr s"
| "run initialBoxes s (e # es) =
     (case step initialBoxes s e of
        Inl f \<Rightarrow> Inl f
      | Inr s' \<Rightarrow> run initialBoxes s' es)"

section \<open>Slice pipeline (imageProcessor.ts, generateSlices)\<close>

text \<open>
  The browser and the enhancement service are outside the repository; the pipeline takes
  what they answer as an environment.  \<open>'b\<close> is the type of blobs.
\<close>

text \<open>
  A part of the first candidate of the service's response: without inline data, or with
  inline data whose base64 text \<^verbatim>\<open>atob\<close> decodes to the bytes of a blob (\<open>None\<close> when
  \<^verbatim>\<open>atob\<close> raises).
\<close>

datatype 'b Part = TextPart | InlineData "'b option"

text \<open>
  What \<^verbatim>\<open>blobToBase64\<close> followed by \<^verbatim>\<open>ai.models.generateContent\<close> gives: an exception
  or rejection, a response without candidate parts, or the parts of the first candidate.
\<close>

datatype 'b Reply = Thrown | NoParts | Parts "'b Part list"

record 'b Env =
  loadImage :: "(nat \<times> nat) option"
  getContext2d :: bool
  cropToBlob :: "real \<Rightarrow> real \<Rightarrow> real \<Rightarrow> real \<Rightarrow> 'b option"
  apiKey :: bool
  generateContent :: "nat \<Rightarrow> 'b \<Rightarrow> 'b Reply"
  createImageBitmap :: "'b \<Rightarrow> (nat \<times> nat) option"
  createObjectURL :: "'b \<Rightarrow> string"

text \<open>
  \<open>loadImage\<close>: the width and height of the decoded image, \<open>None\<close> when the promise is
  rejected.  \<open>getContext2d\<close>: whether the canvas gives a 2D context.  \<open>cropToBlob x y w h\<close>:
  the PNG blob of the crop canvas, \<open>None\<close> when \<^verbatim>\<open>toBlob\<close> calls back with \<^verbatim>\<open>null\<close>.
  \<open>generateContent i blob\<close>: the service's answer for tile \<open>i\<close>.  \<open>createImageBitmap\<close>:
  the pixel width and height of a blob, \<open>None\<close> when it cannot be decoded.
\<close>

text \<open>\<^verbatim>\<open>interface ImageSlice\<close>, \<^verbatim>\<open>GridDimensions\<close> and \<^verbatim>\<open>SplitResult\<close>, lines 5-23.\<close>

record 'b ImageSlice =
  slice_id :: nat
  slice_url :: string
  slice_blob :: 'b
  slice_row :: nat
  slice_col :: nat
  slice_width :: nat
  slice_height :: nat

record GridDimensions =
  dim_rows :: nat
  dim_cols :: nat

record 'b SplitResult =
  slices :: "'b ImageSlice list"
  dimensions :: GridDimensions

text \<open>
  The ways \<^verbatim>\<open>generateSlices\<close> rejects: \<^verbatim>\<open>loadImage\<close> rejected, "No boxes to process.",
  "Canvas error", and a rejected \<^verbatim>\<open>createImageBitmap\<close>.
\<close>

datatype SliceError = ImageLoadError | NoBoxesError | CanvasError | BitmapError

text \<open>
  \<^verbatim>\<open>upscaleSliceWithAI\<close>, lines 139-179: the original blob without an API key, on any
  exception, and when no part carries inline data; otherwise the blob built from the
  first part that carries inline data.
\<close>

fun isInline :: "'b Part \<Rightarrow> bool" where
  "isInline TextPart = False"
| "isInline (InlineData d) = True"

definition upscaleSliceWithAI :: "'b Env \<Rightarrow> nat \<Rightarrow> 'b \<Rightarrow> 'b" where
  "upscaleSliceWithAI env i blob =
     (if \<not> apiKey env then blob
      else (case generateContent env i blob of
              Thrown \<Rightarrow> blob
            | NoParts \<Rightarrow> blob
            | Parts ps \<Rightarrow>
                (case find isInline ps of
                   Some (InlineData (Some enhanced)) \<Rightarrow> enhanced
                 | _ \<Rightarrow> blob)))"

text \<open>
  The loop of lines 261-297 over \<^verbatim>\<open>sortedBoxes\<close> with their indices; \<open>acc\<close> is the
  array \<^verbatim>\<open>slices\<close>.
\<close>

fun sliceLoop ::
  "'b Env \<Rightarrow> (nat \<times> GridItem) list \<Rightarrow> 'b ImageSlice list \<Rightarrow> SliceError + 'b ImageSlice list" where
  "sliceLoop env [] acc = Inr acc"
| "sliceLoop env ((i, item) # rest) acc =
     (case cropToBlob env (pix_x (box item)) (pix_y (box item))
                          (pix_w (box item)) (pix_h (box item)) of
        None \<Rightarrow> sliceLoop env rest acc
      | Some cropBlob \<Rightarrow>
          (let upscaledBlob = upscaleSliceWithAI env i cropBlob
           in case createImageBitmap env upscaledBlob of
                None \<Rightarrow> Inl BitmapError
              | Some (bitmapWidth, bitmapHeight) \<Rightarrow>
                  sliceLoop env rest
                    (acc @ [\<lparr> slice_id = i,
                              slice_url = createObjectURL env upscaledBlob,
                              slice_blob = upscaledBlob,
                              slice_row = row item,
                              slice_col = col item,
                              slice_width = bitmapWidth,
                              slice_height = bitmapHeight \<rparr>])))"

text \<open>\<^verbatim>\<open>generateSlices\<close>, lines 240-302.\<close>

definition generateSlices :: "'b Env \<Rightarrow> BoundingBox list \<Rightarrow> SliceError + 'b SplitResult" where
  "generateSlices env bxs =
     (case loadImage env of
        None \<Rightarrow> Inl ImageLoadError
      | Some (imgWidth, imgHeight) \<Rightarrow>
          if length bxs = 0 then Inl NoBoxesError
          else
            let org = organizeBoxes bxs (real imgWidth) (real imgHeight)
            in if \<not> getContext2d env then Inl CanvasError
               else (case sliceLoop env (enumerate 0 (sortedBoxes org)) [] of
                       Inl e \<Rightarrow> Inl e
                     | Inr sl \<Rightarrow>
                         Inr \<lparr> slices = sl,
                               dimensions = \<lparr> dim_rows = rows org, dim_cols = cols org \<rparr> \<rparr>))"

section \<open>Notions used to state the properties\<close>

subsection \<open>Editor\<close>

text \<open>A session as the component starts: the given boxes, nothing selected, zoom 1.\<close>

definition initialSession :: "BoundingBox list \<Rightarrow> EditSession" where
  "initialSession initialBoxes =
     \<lparr> boxes = initialBoxes, activeBoxIndex = None, selectedBoxIndex = None,
       interactionMode = None, resizeHandle = None, startPos = (0, 0),
       startBoxState = None, scale = 1 \<rparr>"



text \<open>Three boxes of a row, used as concrete inputs.\<close>

definition boxA :: BoundingBox where
  "boxA = \<lparr> ymin = 0, xmin = 0, ymax = 300, xmax = 300 \<rparr>"

definition boxB :: BoundingBox where
  "boxB = \<lparr> ymin = 0, xmin = 350, ymax = 300, xmax = 650 \<rparr>"

definition boxC :: BoundingBox where
  "boxC = \<lparr> ymin = 0, xmin = 700, ymax = 300, xmax = 1000 \<rparr>"

subsection \<open>Uniform grids\<close>







subsection \<open>Move, resize and Dimension-Sync\<close>

text \<open>The bounds of the data model: \<open>0 \<le> xmin < xmax \<le> 1000\<close> and \<open>0 \<le> ymin < ymax \<le> 1000\<close>.\<close>

definition validBox :: "BoundingBox \<Rightarrow> bool" where
  "validBox b =
     (0 \<le> xmin b \<and> xmin b < xmax b \<and> xmax b \<le> 1000 \<and>
      0 \<le> ymin b \<and> ymin b < ymax b \<and> ymax b \<le> 1000)"

text \<open>A box ten units wide at the right edge of the canvas.\<close>

definition edgeBox :: BoundingBox where
  "edgeBox = \<lparr> ymin = 0, xmin = 990, ymax = 100, xmax = 1000 \<rparr>"

text \<open>A box 100 wide and high that touches the right edge of the canvas.\<close>

definition cornerBox :: BoundingBox where
  "cornerBox = \<lparr> ymin = 400, xmin = 900, ymax = 500, xmax = 1000 \<rparr>"

text \<open>A session of two boxes with the first one selected.\<close>

definition syncSession :: EditSession where
  "syncSession = (initialSession [boxA, cornerBox])\<lparr> selectedBoxIndex := Some 0 \<rparr>"





text \<open>
  A box within the canvas: \<open>0 \<le> xmin \<le> xmax \<le> 1000\<close> and \<open>0 \<le> ymin \<le> ymax \<le> 1000\<close>.
\<close>

definition inCanvas :: "BoundingBox \<Rightarrow> bool" where
  "inCanvas b =
     (0 \<le> xmin b \<and> xmin b \<le> xmax b \<and> xmax b \<le> 1000 \<and>
      0 \<le> ymin b \<and> ymin b \<le> ymax b \<and> ymax b \<le> 1000)"

text \<open>
  The events of move gestures: pointer down on a box body, pointer moves, pointer up.
  In \<open>finiteRect\<close> the container of a pointer move has a size other than zero.
\<close>

fun isMoveOp :: "Event \<Rightarrow> bool" where
  "isMoveOp (MoveStart index clientX clientY) = True"
| "isMoveOp (PointerMove clientX clientY rectWidth rectHeight) = True"
| "isMoveOp PointerUp = True"
| "isMoveOp e = False"

fun finiteRect :: "Event \<Rightarrow> bool" where
  "finiteRect (PointerMove clientX clientY rectWidth rectHeight) = (rectWidth \<noteq> 0 \<and> rectHeight \<noteq> 0)"
| "finiteRect e = True"

text \<open>
  What holds of the box at index \<open>i\<close> between the events of move gestures, \<open>n\<close> events
  after it was \<open>w0\<close> wide and \<open>h0\<close> high: it is within the canvas and its size has drifted
  by at most \<open>n\<close> roundings, and so has the snapshot while the box is dragged.
\<close>

definition sizeNear :: "real \<Rightarrow> real \<Rightarrow> nat \<Rightarrow> BoundingBox \<Rightarrow> bool" where
  "sizeNear w0 h0 n b =
     (\<bar>(xmax b - xmin b) - w0\<bar> \<le> real n / 2 ^ 43 \<and> \<bar>(ymax b - ymin b) - h0\<bar> \<le> real n / 2 ^ 43)"

definition moveInv :: "nat \<Rightarrow> real \<Rightarrow> real \<Rightarrow> nat \<Rightarrow> EditSession \<Rightarrow> bool" where
  "moveInv i w0 h0 n s =
     (i < length (boxes s) \<and> inCanvas (boxes s ! i) \<and> sizeNear w0 h0 n (boxes s ! i) \<and>
      (case (activeBoxIndex s, startBoxState s) of
         (Some active, Some b) \<Rightarrow>
            interactionMode s = Some Move \<and> active < length (boxes s) \<and>
            (if active = i then inCanvas b \<and> sizeNear w0 h0 n b else True)
       | _ \<Rightarrow> True))"

text \<open>A number below zero.\<close>

fun belowZero :: "Num \<Rightarrow> bool" where
  "belowZero (Finite v) = (v < 0)"
| "belowZero NegInfinity = True"
| "belowZero v = False"

text \<open>
  Two drags of the second box: 39 pixels to the left over a container 777 pixels wide,
  and far to the left and then far down over a container 400 pixels wide and 200 high.
\<close>

definition nudgeLeft :: "Event list" where
  "nudgeLeft = [MoveStart 1 500 150, PointerMove 461 150 777 500, PointerUp]"

definition dragLeft :: "Event list" where
  "dragLeft =
     [MoveStart 1 500 150, PointerMove 100 150 400 200, PointerMove 100 350 400 200, PointerUp]"

text \<open>The eight resize handles of the spec.\<close>

definition resizeHandles :: "string list" where
  "resizeHandles = [''n'', ''s'', ''e'', ''w'', ''ne'', ''nw'', ''se'', ''sw'']"

text \<open>A box within the canvas whose width and height are at least the minimum size.\<close>

definition sizedBox :: "BoundingBox \<Rightarrow> bool" where
  "sizedBox b =
     (0 \<le> xmin b \<and> xmax b \<le> 1000 \<and> 0 \<le> ymin b \<and> ymax b \<le> 1000 \<and>
      minSize \<le> xmax b - xmin b \<and> minSize \<le> ymax b - ymin b)"

text \<open>The first box grabbed at its south-east handle.\<close>

definition resizingSE :: EditSession where
  "resizingSE = handleResizeStart (initialSession [boxA, boxB, boxC]) 0 ''se'' 300 300"

text \<open>
  A box 200 wide whose left edge is the binary64 number next above 500, grabbed at its
  south-east handle.
\<close>

definition offGridBox :: BoundingBox where
  "offGridBox = \<lparr> ymin = 0, xmin = 500 + 1 / 2 ^ 44, ymax = 300, xmax = 700 \<rparr>"

definition resizingOffGrid :: EditSession where
  "resizingOffGrid = handleResizeStart (initialSession [offGridBox]) 0 ''se'' 700 300"



text \<open>
  The tests that \<open>organizeBoxes\<close> makes on two boxes have the same outcome for the boxes
  \<open>bs\<close> and for the boxes \<open>bs'\<close> at the same indices: the order of the centers on both
  axes, and the row test of the center distance against half the height.
\<close>

definition sameTests :: "real \<Rightarrow> real \<Rightarrow> BoundingBox list \<Rightarrow> BoundingBox list \<Rightarrow> bool" where
  "sameTests width height bs bs' =
     (let pairs = zip (map (toPixelBox width height) bs) (map (toPixelBox width height) bs')
      in list_all (\<lambda>(p, p'). list_all (\<lambda>(q, q').
            (pix_cy p \<le> pix_cy q) = (pix_cy p' \<le> pix_cy q') \<and>
            (pix_cx p \<le> pix_cx q) = (pix_cx p' \<le> pix_cx q') \<and>
            (\<bar>pix_cy q - pix_cy p\<bar> < pix_h q * 0.5) = (\<bar>pix_cy q' - pix_cy p'\<bar> < pix_h q' * 0.5))
          pairs) pairs)"

text \<open>
  Four boxes in two rows and two columns, those of the right column 320 high and the
  others 300, the first one selected.
\<close>

definition unevenSession :: EditSession where
  "unevenSession =
     (initialSession [boxA,
                      \<lparr> ymin = 0, xmin = 400, ymax = 320, xmax = 700 \<rparr>,
                      \<lparr> ymin = 400, xmin = 0, ymax = 700, xmax = 300 \<rparr>,
                      \<lparr> ymin = 400, xmin = 400, ymax = 720, xmax = 700 \<rparr>])
       \<lparr> selectedBoxIndex := Some 0 \<rparr>"

text \<open>
  The box resized to a width and a height about its own center, in exact arithmetic, and
  a Dimension-Sync that does just that to every box but the source at index \<open>sel\<close>: no
  box is shifted and no edge is rounded.
\<close>

definition centeredOn :: "BoundingBox \<Rightarrow> real \<Rightarrow> real \<Rightarrow> BoundingBox" where
  "centeredOn b targetW targetH =
     \<lparr> ymin = (ymin b + ymax b) / 2 - targetH / 2,
       xmin = (xmin b + xmax b) / 2 - targetW / 2,
       ymax = (ymin b + ymax b) / 2 + targetH / 2,
       xmax = (xmin b + xmax b) / 2 + targetW / 2 \<rparr>"

definition centeredSync :: "nat \<Rightarrow> BoundingBox list \<Rightarrow> BoundingBox list \<Rightarrow> bool" where
  "centeredSync sel bs bs' =
     (length bs' = length bs \<and>
      list_all (\<lambda>i. bs' ! i =
                  (if i = sel then bs ! i
                   else centeredOn (bs ! i) (xmax (bs ! sel) - xmin (bs ! sel))
                                            (ymax (bs ! sel) - ymin (bs ! sel))))
               [0..<length bs])"

text \<open>
  The row test of any box \<open>q\<close> against any box \<open>p\<close> has the same outcome with the height
  of \<open>q\<close> and with the height of the source.
\<close>

definition rowTestsKept :: "nat \<Rightarrow> BoundingBox list \<Rightarrow> bool" where
  "rowTestsKept sel bs =
     list_all (\<lambda>p. list_all (\<lambda>q.
         (\<bar>(ymin q + ymax q) - (ymin p + ymax p)\<bar> < ymax q - ymin q)
         = (\<bar>(ymin q + ymax q) - (ymin p + ymax p)\<bar> < ymax (bs ! sel) - ymin (bs ! sel))) bs) bs"

subsection \<open>Slice pipeline\<close>

text \<open>
  The enhancement call for tile \<open>i\<close> fails: there is no API key, the call raises, the
  response has no candidate parts, or its first part with inline data, if there is one,
  carries no image that \<^verbatim>\<open>atob\<close> decodes.
\<close>

definition enhancementFails :: "'b Env \<Rightarrow> nat \<Rightarrow> 'b \<Rightarrow> bool" where
  "enhancementFails env i blob =
     (\<not> apiKey env \<or>
      (case generateContent env i blob of
         Thrown \<Rightarrow> True
       | NoParts \<Rightarrow> True
       | Parts ps \<Rightarrow>
           (case find isInline ps of
              Some (InlineData (Some enhanced)) \<Rightarrow> False
            | _ \<Rightarrow> True)))"

text \<open>
  The tiles that the loop of \<open>generateSlices\<close> visits, with their indices, and the crop
  of a tile.
\<close>

definition tiles :: "'b Env \<Rightarrow> BoundingBox list \<Rightarrow> (nat \<times> GridItem) list" where
  "tiles env bxs =
     (case loadImage env of
        None \<Rightarrow> []
      | Some (imgWidth, imgHeight) \<Rightarrow>
          enumerate 0 (sortedBoxes (organizeBoxes bxs (real imgWidth) (real imgHeight))))"

definition cropOf :: "'b Env \<Rightarrow> GridItem \<Rightarrow> 'b option" where
  "cropOf env item =
     cropToBlob env (pix_x (box item)) (pix_y (box item)) (pix_w (box item)) (pix_h (box item))"

fun hasCrop :: "'b Env \<Rightarrow> nat \<times> GridItem \<Rightarrow> bool" where
  "hasCrop env (i, item) = (cropOf env item \<noteq> None)"

text \<open>
  The blob kept for a tile can be decoded: the tile has no crop, or
  \<^verbatim>\<open>createImageBitmap\<close> accepts what \<open>upscaleSliceWithAI\<close> returns for its crop.
\<close>

fun tileDecodes :: "'b Env \<Rightarrow> nat \<times> GridItem \<Rightarrow> bool" where
  "tileDecodes env (i, item) =
     (case cropOf env item of
        None \<Rightarrow> True
      | Some cropBlob \<Rightarrow> createImageBitmap env (upscaleSliceWithAI env i cropBlob) \<noteq> None)"

text \<open>
  The slice \<open>sl\<close> is the record of the tile \<open>(i, item)\<close>: its blob is what
  \<open>upscaleSliceWithAI\<close> returns for the item's crop, its width and height are the pixel
  size of that blob, and when the enhancement fails the blob is the crop itself.
\<close>

fun tileRecorded :: "'b Env \<Rightarrow> nat \<times> GridItem \<Rightarrow> 'b ImageSlice \<Rightarrow> bool" where
  "tileRecorded env (i, item) sl =
     (case cropOf env item of
        None \<Rightarrow> False
      | Some cropBlob \<Rightarrow>
          slice_id sl = i \<and> slice_row sl = row item \<and> slice_col sl = col item \<and>
          slice_blob sl = upscaleSliceWithAI env i cropBlob \<and>
          slice_url sl = createObjectURL env (slice_blob sl) \<and>
          createImageBitmap env (slice_blob sl) = Some (slice_width sl, slice_height sl) \<and>
          (if enhancementFails env i cropBlob
           then slice_blob sl = cropBlob \<and>
                createImageBitmap env cropBlob = Some (slice_width sl, slice_height sl)
           else True))"

text \<open>
  Environments with natural numbers as blobs.  In all of them the image is 1000 by 1000,
  every crop gives blob 7, and a blob below 100 is 300 by 300 pixels.  In \<open>noCanvasEnv\<close>
  the canvas gives no 2D context.  In \<open>flakyEnv\<close> the enhancement raises for tile 0 and
  answers with a text part and the image 107, which is 1024 by 1024 pixels, for every
  other tile.  In \<open>garbledEnv\<close> the enhancement answers with the image 107, which
  \<^verbatim>\<open>createImageBitmap\<close> cannot decode.
\<close>

definition noCanvasEnv :: "nat Env" where
  "noCanvasEnv =
     \<lparr> loadImage = Some (1000, 1000), getContext2d = False,
       cropToBlob = (\<lambda>x y w h. Some 7), apiKey = True,
       generateContent = (\<lambda>i blob. Thrown),
       createImageBitmap = (\<lambda>blob. Some (if blob < 100 then (300, 300) else (1024, 1024))),
       createObjectURL = (\<lambda>blob. ''blob:tile'') \<rparr>"

definition flakyEnv :: "nat Env" where
  "flakyEnv =
     \<lparr> loadImage = Some (1000, 1000), getContext2d = True,
       cropToBlob = (\<lambda>x y w h. Some 7), apiKey = True,
       generateContent =
         (\<lambda>i blob. if i = 0 then Thrown else Parts [TextPart, InlineData (Some (blob + 100))]),
       createImageBitmap = (\<lambda>blob. Some (if blob < 100 then (300, 300) else (1024, 1024))),
       createObjectURL = (\<lambda>blob. ''blob:tile'') \<rparr>"

definition garbledEnv :: "nat Env" where
  "garbledEnv =
     \<lparr> loadImage = Some (1000, 1000), getContext2d = True,
       cropToBlob = (\<lambda>x y w h. Some 7), apiKey = True,
       generateContent = (\<lambda>i blob. Parts [InlineData (Some (blob + 100))]),
       createImageBitmap = (\<lambda>blob. if blob < 100 then Some (300, 300) else None),
       createObjectURL = (\<lambda>blob. ''blob:tile'') \<rparr>"

section \<open>Properties of binary64 rounding\<close>

lemma roundEven_of_int [simp]: "roundEven (of_int n) = n"
  by (simp add: roundEven_def)

lemma roundEven_range: "\<lfloor>y\<rfloor> \<le> roundEven y \<and> roundEven y \<le> \<lfloor>y\<rfloor> + 1"
  by (simp add: roundEven_def Let_def)

lemma roundEven_error: "\<bar>of_int (roundEven y) - y\<bar> \<le> 1 / 2"
proof -
  have "of_int \<lfloor>y\<rfloor> \<le> y" "y < of_int \<lfloor>y\<rfloor> + 1" by linarith+
  then show ?thesis
    by (auto simp: roundEven_def Let_def)
qed

lemma roundEven_mono:
  assumes "a \<le> b"
  shows "roundEven a \<le> roundEven b"
proof (cases "\<lfloor>a\<rfloor> = \<lfloor>b\<rfloor>")
  case True
  with assms show ?thesis
    by (auto simp: roundEven_def Let_def)
next
  case False
  with assms have "\<lfloor>a\<rfloor> + 1 \<le> \<lfloor>b\<rfloor>"
    using floor_mono[of a b] by linarith
  with roundEven_range[of a] roundEven_range[of b] show ?thesis by linarith
qed

lemma roundEven_minus: "roundEven (- y) = - roundEven y"
proof (cases "y = of_int \<lfloor>y\<rfloor>")
  case True
  then obtain n where "y = of_int n" ..
  then have "roundEven (- y) = roundEven (of_int (- n))" by simp
  also have "\<dots> = - n" by (rule roundEven_of_int)
  finally show ?thesis using \<open>y = of_int n\<close> by simp
next
  case False
  then have fl: "\<lfloor>- y\<rfloor> = - \<lfloor>y\<rfloor> - 1"
    by (simp add: floor_minus ceiling_altdef)
  have "of_int \<lfloor>y\<rfloor> \<le> y" "y < of_int \<lfloor>y\<rfloor> + 1" by linarith+
  with False show ?thesis
    unfolding roundEven_def Let_def fl by (auto simp: algebra_simps)
qed

lemma emin_le_0: "emin \<le> 0"
  by (simp add: emin_def)

lemma binade_ge: "emin \<le> binade x"
  by (simp add: binade_def)

lemma two_powi_nat: "0 \<le> k \<Longrightarrow> (2::real) powi k = 2 ^ nat k"
  by (simp add: power_int_def)

lemma two_powi_shift: "(2::real) powi (k + emin) = 2 powi k / 2 ^ nat (- emin)"
proof -
  have "(2::real) powi (k + emin) = 2 powi k * 2 powi emin"
    using power_int_add[of "2::real" k emin] by simp
  also have "(2::real) powi emin = inverse (2 ^ nat (- emin))"
    using emin_le_0 power_int_minus[of "2::real" "- emin"] two_powi_nat[of "- emin"] by simp
  finally show ?thesis by (simp add: field_simps)
qed

lemma binade_upper: "\<bar>x\<bar> < 2 powi (binade x + 53)"
proof -
  let ?c = "(2::real) ^ nat (- emin)"
  let ?n = "\<lfloor>\<bar>x\<bar> * ?c\<rfloor>"
  let ?bl = "bitlen ?n"
  have c: "0 < ?c" by simp
  have lt: "\<bar>x\<bar> * ?c < of_int ?n + 1" by linarith
  show ?thesis
  proof (cases "?bl \<le> 53")
    case True
    then have k: "binade x = emin" by (simp add: binade_def)
    from True have "?n < 2 ^ 53"
      using bitlen_le_iff_power[of ?n 53] by simp
    then have "?n + 1 \<le> 2 ^ 53" by simp
    then have "(of_int (?n + 1) :: real) \<le> of_int (2 ^ 53)"
      by (simp only: of_int_le_iff)
    then have "(of_int ?n :: real) + 1 \<le> 2 ^ 53" by simp
    with lt have "\<bar>x\<bar> * ?c < 2 ^ 53" by linarith
    then have "\<bar>x\<bar> < 2 ^ 53 / ?c"
      using c by (simp add: pos_less_divide_eq)
    also have "(2::real) ^ 53 / ?c = 2 powi (53 + emin)"
      using two_powi_shift[of 53] by simp
    finally show ?thesis by (simp add: k add.commute)
  next
    case False
    then have k: "binade x = ?bl - 53 + emin" by (simp add: binade_def)
    from False have "0 < ?bl" by simp
    then have "0 < ?n" using bitlen_eq_zero_iff[of ?n] by linarith
    from bitlen_bounds[OF this] have "?n < 2 ^ nat ?bl" by simp
    then have "?n + 1 \<le> 2 ^ nat ?bl" by simp
    then have "(of_int (?n + 1) :: real) \<le> of_int (2 ^ nat ?bl)"
      by (simp only: of_int_le_iff)
    then have "(of_int ?n :: real) + 1 \<le> 2 ^ nat ?bl" by simp
    with lt have "\<bar>x\<bar> * ?c < 2 ^ nat ?bl" by linarith
    then have "\<bar>x\<bar> < 2 ^ nat ?bl / ?c"
      using c by (simp add: pos_less_divide_eq)
    also have "(2::real) ^ nat ?bl / ?c = 2 powi (?bl + emin)"
      using two_powi_shift[of ?bl] two_powi_nat[of ?bl] \<open>0 < ?bl\<close> by simp
    finally show ?thesis by (simp add: k algebra_simps)
  qed
qed

lemma binade_lower:
  assumes "emin < binade x"
  shows "2 powi (binade x + 52) \<le> \<bar>x\<bar>"
proof -
  let ?c = "(2::real) ^ nat (- emin)"
  let ?n = "\<lfloor>\<bar>x\<bar> * ?c\<rfloor>"
  let ?bl = "bitlen ?n"
  have c: "0 < ?c" by simp
  from assms have bl: "53 < ?bl" and k: "binade x = ?bl - 53 + emin"
    by (simp_all add: binade_def max_def split: if_splits)
  then have "0 < ?n" using bitlen_eq_zero_iff[of ?n] by linarith
  from bitlen_bounds[OF this] have "2 ^ nat (?bl - 1) \<le> ?n" by simp
  then have "(of_int (2 ^ nat (?bl - 1)) :: real) \<le> of_int ?n"
    by (simp only: of_int_le_iff)
  then have "(2::real) ^ nat (?bl - 1) \<le> of_int ?n" by simp
  also have "\<dots> \<le> \<bar>x\<bar> * ?c" by linarith
  finally have "(2::real) ^ nat (?bl - 1) / ?c \<le> \<bar>x\<bar>"
    using c by (simp add: pos_divide_le_eq)
  moreover have "(2::real) ^ nat (?bl - 1) / ?c = 2 powi (?bl - 1 + emin)"
    using two_powi_shift[of "?bl - 1"] two_powi_nat[of "?bl - 1"] bl by simp
  ultimately show ?thesis by (simp add: k algebra_simps)
qed

lemma binade_unique:
  assumes "emin \<le> k" and "\<bar>x\<bar> < 2 powi (k + 53)"
    and "k = emin \<or> 2 powi (k + 52) \<le> \<bar>x\<bar>"
  shows "binade x = k"
proof (rule antisym)
  show "binade x \<le> k"
  proof (rule ccontr)
    assume "\<not> binade x \<le> k"
    then have gt: "k < binade x" by simp
    with assms(1) have "emin < binade x" by simp
    from binade_lower[OF this] assms(2) have "(2::real) powi (binade x + 52) < 2 powi (k + 53)"
      by linarith
    moreover have "(2::real) powi (k + 53) \<le> 2 powi (binade x + 52)"
      using gt by (intro power_int_increasing) simp_all
    ultimately show False by linarith
  qed
next
  show "k \<le> binade x"
  proof (rule ccontr)
    assume "\<not> k \<le> binade x"
    then have lt: "binade x < k" by simp
    with binade_ge[of x] assms(3) have "2 powi (k + 52) \<le> \<bar>x\<bar>" by auto
    with binade_upper[of x] have "(2::real) powi (k + 52) < 2 powi (binade x + 53)"
      by linarith
    moreover have "(2::real) powi (binade x + 53) \<le> 2 powi (k + 52)"
      using lt by (intro power_int_increasing) simp_all
    ultimately show False by linarith
  qed
qed

lemma fl_eq:
  assumes "emin \<le> k" and "\<bar>x\<bar> < 2 powi (k + 53)"
    and "k = emin \<or> 2 powi (k + 52) \<le> \<bar>x\<bar>"
  shows "fl x = of_int (roundEven (x / 2 powi k)) * 2 powi k"
  using binade_unique[OF assms] by (simp add: fl_def)

lemma binade_minus [simp]: "binade (- x) = binade x"
  by (simp add: binade_def)

lemma fl_minus: "fl (- x) = - fl x"
  by (simp add: fl_def roundEven_minus)

lemma roundEven_0 [simp]: "roundEven 0 = 0"
  using roundEven_of_int[of 0] by simp

lemma fl_0 [simp]: "fl 0 = 0"
  by (simp add: fl_def)

lemma fl_error: "\<bar>fl x - x\<bar> \<le> 2 powi (binade x - 1)"
proof -
  let ?p = "(2::real) powi binade x"
  have p: "0 < ?p" by simp
  have "fl x - x = (of_int (roundEven (x / ?p)) - x / ?p) * ?p"
    using p by (simp add: fl_def field_simps)
  then have "\<bar>fl x - x\<bar> = \<bar>of_int (roundEven (x / ?p)) - x / ?p\<bar> * ?p"
    using p by (simp add: abs_mult)
  also have "\<dots> \<le> 1 / 2 * ?p"
    using roundEven_error[of "x / ?p"] p by (intro mult_right_mono) simp_all
  also have "\<dots> = 2 powi (binade x - 1)"
    using power_int_add[of "2::real" "binade x" "- 1"] by (simp add: power_int_minus)
  finally show ?thesis .
qed

lemma binade_le:
  assumes "emin \<le> j" and "\<bar>x\<bar> < 2 powi (j + 53)"
  shows "binade x \<le> j"
proof (rule ccontr)
  assume "\<not> binade x \<le> j"
  then have gt: "j < binade x" by simp
  with assms(1) have "emin < binade x" by simp
  from binade_lower[OF this] assms(2) have "(2::real) powi (binade x + 52) < 2 powi (j + 53)"
    by linarith
  moreover have "(2::real) powi (j + 53) \<le> 2 powi (binade x + 52)"
    using gt by (intro power_int_increasing) simp_all
  ultimately show False by linarith
qed

lemma fl_error_below:
  assumes "emin \<le> j" and "\<bar>x\<bar> < 2 powi (j + 53)"
  shows "\<bar>fl x - x\<bar> \<le> 2 powi (j - 1)"
proof -
  have "(2::real) powi (binade x - 1) \<le> 2 powi (j - 1)"
    using binade_le[OF assms] by (intro power_int_increasing) simp_all
  with fl_error[of x] show ?thesis by linarith
qed

lemma two_powi_plus: "(2::real) powi (k + numeral n) = 2 powi k * 2 ^ numeral n"
  using power_int_add[of "2::real" k "numeral n"] by simp

lemma roundEven_le_int: "y \<le> of_int n \<Longrightarrow> roundEven y \<le> n"
  using roundEven_mono[of y "of_int n"] by simp

lemma roundEven_ge_int: "of_int n \<le> y \<Longrightarrow> n \<le> roundEven y"
  using roundEven_mono[of "of_int n" y] by simp

lemma significand_upper:
  assumes "0 \<le> x"
  shows "x / 2 powi binade x < 2 ^ 53"
proof -
  have "x < 2 powi binade x * 2 ^ 53"
    using binade_upper[of x] assms by (simp add: two_powi_plus)
  then show ?thesis
    by (simp add: pos_divide_less_eq mult.commute)
qed

lemma significand_lower:
  assumes "0 \<le> x" and "emin < binade x"
  shows "2 ^ 52 \<le> x / 2 powi binade x"
proof -
  have "2 powi binade x * 2 ^ 52 \<le> x"
    using binade_lower[OF assms(2)] assms(1) by (simp add: two_powi_plus)
  then show ?thesis
    by (simp add: pos_le_divide_eq mult.commute)
qed

lemma fl_nonneg:
  assumes "0 \<le> x"
  shows "0 \<le> fl x"
proof -
  have "0 \<le> x / 2 powi binade x" using assms by simp
  then have "0 \<le> roundEven (x / 2 powi binade x)"
    using roundEven_ge_int[of 0] by simp
  then show ?thesis by (simp add: fl_def)
qed

lemma fl_upper:
  assumes "0 \<le> x"
  shows "fl x \<le> 2 powi (binade x + 53)"
proof -
  have "roundEven (x / 2 powi binade x) \<le> 2 ^ 53"
    using significand_upper[OF assms] by (intro roundEven_le_int) simp
  then have "(of_int (roundEven (x / 2 powi binade x)) :: real) \<le> of_int (2 ^ 53)"
    by (simp only: of_int_le_iff)
  then have "of_int (roundEven (x / 2 powi binade x)) * 2 powi binade x
               \<le> 2 ^ 53 * (2::real) powi binade x"
    by (intro mult_right_mono) simp_all
  then show ?thesis
    by (simp add: fl_def two_powi_plus mult.commute)
qed

lemma fl_lower:
  assumes "0 \<le> x" and "emin < binade x"
  shows "2 powi (binade x + 52) \<le> fl x"
proof -
  have "2 ^ 52 \<le> roundEven (x / 2 powi binade x)"
    using significand_lower[OF assms] by (intro roundEven_ge_int) simp
  then have "(of_int (2 ^ 52) :: real) \<le> of_int (roundEven (x / 2 powi binade x))"
    by (simp only: of_int_le_iff)
  then have "2 ^ 52 * (2::real) powi binade x
               \<le> of_int (roundEven (x / 2 powi binade x)) * 2 powi binade x"
    by (intro mult_right_mono) simp_all
  then show ?thesis
    by (simp add: fl_def two_powi_plus mult.commute)
qed

lemma fl_mono_nonneg:
  assumes "0 \<le> x" and "x \<le> y"
  shows "fl x \<le> fl y"
proof -
  have y: "0 \<le> y" using assms by simp
  have le: "binade x \<le> binade y"
    using binade_upper[of y] assms by (intro binade_le binade_ge) simp
  show ?thesis
  proof (cases "binade x = binade y")
    case True
    have "x / 2 powi binade y \<le> y / 2 powi binade y"
      using assms(2) by (simp add: divide_right_mono)
    then have "roundEven (x / 2 powi binade y) \<le> roundEven (y / 2 powi binade y)"
      by (rule roundEven_mono)
    then have "(of_int (roundEven (x / 2 powi binade y)) :: real)
                 \<le> of_int (roundEven (y / 2 powi binade y))"
      by (simp only: of_int_le_iff)
    then show ?thesis
      unfolding fl_def True by (intro mult_right_mono) simp_all
  next
    case False
    with le have lt: "binade x < binade y" by simp
    with binade_ge[of x] have "emin < binade y" by simp
    from fl_lower[OF y this] have "2 powi (binade y + 52) \<le> fl y" .
    moreover have "fl x \<le> 2 powi (binade x + 53)"
      using assms(1) by (rule fl_upper)
    moreover have "(2::real) powi (binade x + 53) \<le> 2 powi (binade y + 52)"
      using lt by (intro power_int_increasing) simp_all
    ultimately show ?thesis by linarith
  qed
qed

lemma fl_mono:
  assumes "x \<le> y"
  shows "fl x \<le> fl y"
proof (cases "0 \<le> x")
  case True
  then show ?thesis using assms by (rule fl_mono_nonneg)
next
  case False
  show ?thesis
  proof (cases "0 \<le> y")
    case True
    from False have "0 \<le> fl (- x)" by (intro fl_nonneg) simp
    then have "fl x \<le> 0" by (simp add: fl_minus)
    with fl_nonneg[OF True] show ?thesis by linarith
  next
    case y: False
    then have "fl (- y) \<le> fl (- x)"
      using assms by (intro fl_mono_nonneg) simp_all
    then show ?thesis by (simp add: fl_minus)
  qed
qed

lemma fl_idem_nonneg:
  assumes "0 \<le> x"
  shows "fl (fl x) = fl x"
proof -
  let ?k = "binade x"
  let ?r = "roundEven (x / 2 powi ?k)"
  have val: "fl x = of_int ?r * 2 powi ?k" by (simp add: fl_def)
  have r0: "0 \<le> ?r"
    using assms by (intro roundEven_ge_int) simp
  have r1: "?r \<le> 2 ^ 53"
    using significand_upper[OF assms] by (intro roundEven_le_int) simp
  consider "?r = 0" | "0 < ?r" "?r < 2 ^ 53" | "?r = 2 ^ 53"
    using r0 r1 by linarith
  then show ?thesis
  proof cases
    case 1
    then show ?thesis by (simp add: val)
  next
    case 2
    have rr: "(of_int ?r :: real) < of_int (2 ^ 53)" "(0::real) < of_int ?r"
      using 2 by (simp_all only: of_int_less_iff of_int_0_less_iff)
    have up: "\<bar>fl x\<bar> < 2 powi (?k + 53)"
    proof -
      have "of_int ?r * 2 powi ?k < 2 ^ 53 * (2::real) powi ?k"
        using rr(1) by (intro mult_strict_right_mono) simp_all
      then show ?thesis
        using rr(2) by (simp add: val two_powi_plus mult.commute abs_mult)
    qed
    have lo: "?k = emin \<or> 2 powi (?k + 52) \<le> \<bar>fl x\<bar>"
    proof (cases "?k = emin")
      case False
      with binade_ge[of x] have "emin < ?k" by simp
      from fl_lower[OF assms this] fl_nonneg[OF assms] show ?thesis by simp
    qed simp
    from fl_eq[OF binade_ge up lo]
    have "fl (fl x) = of_int (roundEven (fl x / 2 powi ?k)) * 2 powi ?k" .
    also have "fl x / 2 powi ?k = of_int ?r"
      by (simp add: val)
    finally show ?thesis by (simp add: val)
  next
    case 3
    then have v: "fl x = 2 powi (?k + 53)"
      by (simp add: val two_powi_plus mult.commute)
    have k1: "emin \<le> ?k + 1" using binade_ge[of x] by simp
    have up: "\<bar>fl x\<bar> < 2 powi (?k + 1 + 53)"
      unfolding v by (simp add: power_int_strict_increasing)
    have lo: "?k + 1 = emin \<or> 2 powi (?k + 1 + 52) \<le> \<bar>fl x\<bar>"
      unfolding v by (simp add: add.commute add.left_commute)
    from fl_eq[OF k1 up lo]
    have "fl (fl x) = of_int (roundEven (fl x / 2 powi (?k + 1))) * 2 powi (?k + 1)" .
    also have "fl x / 2 powi (?k + 1) = of_int (2 ^ 52)"
    proof -
      have "(2::real) powi (?k + 53) = 2 powi (?k + 1) * 2 ^ 52"
        using power_int_add[of "2::real" "?k + 1" 52] by (simp add: add.commute add.left_commute)
      then show ?thesis by (simp add: v)
    qed
    also have "roundEven (of_int (2 ^ 52)) = 2 ^ 52" by (rule roundEven_of_int)
    also have "of_int (2 ^ 52) * (2::real) powi (?k + 1) = 2 powi (?k + 53)"
      using power_int_add[of "2::real" "?k + 1" 52] by (simp add: add.commute add.left_commute mult.commute)
    finally show ?thesis by (simp add: v)
  qed
qed

lemma fl_idem [simp]: "fl (fl x) = fl x"
proof (cases "0 \<le> x")
  case True
  then show ?thesis by (rule fl_idem_nonneg)
next
  case False
  then have "fl (fl (- x)) = fl (- x)" by (intro fl_idem_nonneg) simp
  then show ?thesis by (simp add: fl_minus)
qed

lemma fl_exact:
  assumes "emin \<le> e" and "\<bar>n\<bar> < 2 ^ 53"
  shows "fl (of_int n * 2 powi e) = of_int n * 2 powi e"
proof -
  define x where "x = of_int n * (2::real) powi e"
  define p where "p = (2::real) powi binade x"
  define q where "q = (2::int) ^ nat (e - binade x)"
  have p: "0 < p" by (simp add: p_def)
  have "(of_int \<bar>n\<bar> :: real) < of_int (2 ^ 53)"
    using assms(2) by (simp only: of_int_less_iff)
  then have "\<bar>of_int n :: real\<bar> * 2 powi e < 2 ^ 53 * 2 powi e"
    by (intro mult_strict_right_mono) simp_all
  then have "\<bar>x\<bar> < 2 powi (e + 53)"
    by (simp add: x_def abs_mult two_powi_plus mult.commute)
  from binade_le[OF assms(1) this] have k: "binade x \<le> e" .
  have "(2::real) powi e = 2 powi binade x * 2 powi (e - binade x)"
    using power_int_add[of "2::real" "binade x" "e - binade x"] by simp
  also have "(2::real) powi (e - binade x) = of_int q"
    using k by (simp add: two_powi_nat q_def)
  finally have pe: "(2::real) powi e = p * of_int q"
    by (simp add: p_def)
  have xp: "x = of_int (n * q) * p"
    by (simp add: x_def pe)
  then have "x / p = of_int (n * q)"
    using p by simp
  then have "roundEven (x / p) = n * q"
    by (simp only: roundEven_of_int)
  then have "fl x = of_int (n * q) * p"
    by (simp only: fl_def p_def)
  also have "\<dots> = x" by (simp only: xp)
  finally show ?thesis
    by (simp only: x_def)
qed

lemma fl_of_int: "\<bar>n\<bar> < 2 ^ 53 \<Longrightarrow> fl (of_int n) = of_int n"
  using fl_exact[of 0 n] by (simp add: emin_def)

lemma fl_numeral: "(numeral w :: int) < 2 ^ 53 \<Longrightarrow> fl (numeral w) = numeral w"
  using fl_of_int[of "numeral w"] by simp

lemma fl_half: "(numeral w :: int) < 2 ^ 53 \<Longrightarrow> fl (numeral w / 2) = numeral w / 2"
  using fl_exact[of "- 1" "numeral w"] by (simp add: emin_def power_int_minus field_simps)

lemma fl_1 [simp]: "fl 1 = 1"
  using fl_of_int[of 1] by simp

lemmas fl_simps = fl_numeral fl_half fl_minus

lemma fl_1000 [simp]: "fl 1000 = 1000"
  by (simp add: fl_numeral)

lemma fl_tie_1000: "fl (1000 + 1 / 2 ^ 44) = 1000"
  using fl_eq[of "- 43" "1000 + 1 / 2 ^ 44"]
  by (simp add: emin_def roundEven_def Let_def)

lemma fl_le_1000: "x \<le> 1000 + 1 / 2 ^ 44 \<Longrightarrow> fl x \<le> 1000"
  using fl_mono[of x "1000 + 1 / 2 ^ 44"] by (simp only: fl_tie_1000)

lemma fl_error_1024: "\<bar>x\<bar> < 1024 \<Longrightarrow> \<bar>fl x - x\<bar> \<le> 1 / 2 ^ 44"
  using fl_error_below[of "- 43" x] by (simp add: emin_def power_int_minus field_simps)


section \<open>Properties of the grid organizer\<close>

text \<open>
  Claim C8.  For an empty list of boxes and every image width and height,
  \<open>organizeBoxes\<close> returns the empty sequence with \<open>rows = 0\<close> and \<open>cols = 0\<close>.  The
  function is total: no input makes it raise.
\<close>

theorem organizeBoxes_empty:
  "organizeBoxes [] width height = \<lparr> sortedBoxes = [], rows = 0, cols = 0 \<rparr>"
  by (simp add: organizeBoxes_def buildRows_def maxColsOf_def)

subsection \<open>The organizer on a uniform grid\<close>

subsubsection \<open>A sorted list of rows falls into blocks\<close>




subsubsection \<open>Clustering a list of blocks\<close>




subsubsection \<open>Rows of the grid\<close>













section \<open>Properties of the editor\<close>

subsection \<open>Zoom\<close>





subsection \<open>Delete\<close>

lemma delete_filter_enumerate:
  "map snd (filter (\<lambda>(i, _). i \<noteq> n + index) (enumerate n xs))
     = take index xs @ drop (Suc index) xs"
proof (induction xs arbitrary: n index)
  case Nil
  then show ?case by simp
next
  case (Cons x xs)
  show ?case
  proof (cases index)
    case 0
    have "filter (\<lambda>(i, _). i \<noteq> n) (enumerate (Suc n) xs) = enumerate (Suc n) xs"
      by (rule filter_True) (auto simp: in_set_enumerate_eq)
    with 0 show ?thesis by simp
  next
    case (Suc k)
    with Cons.IH[of "Suc n" k] show ?thesis by simp
  qed
qed

text \<open>
  Claim C10.  Delete removes exactly the box at the given index and keeps the order of
  the others; the selection is cleared only when the deleted index is the selected one.
  So when the deleted index is smaller than the selected index \<open>k\<close>, the selection stays
  \<open>k\<close> while the box that was selected now sits at \<open>k - 1\<close>, and index \<open>k\<close> denotes what was
  at \<open>k + 1\<close> before (no box at all when the selected box was the last).
\<close>

theorem delete_box_selection:
  "boxes (handleDeleteBox s index) = take index (boxes s) @ drop (Suc index) (boxes s)
   \<and> selectedBoxIndex (handleDeleteBox s index)
       = (if selectedBoxIndex s = Some index then None else selectedBoxIndex s)
   \<and> (selectedBoxIndex s = Some k \<and> index < k \<and> k < length (boxes s) \<longrightarrow>
        selectedBoxIndex (handleDeleteBox s index) = Some k
        \<and> boxes (handleDeleteBox s index) ! (k - 1) = boxes s ! k
        \<and> boxAt (boxes (handleDeleteBox s index)) k = boxAt (boxes s) (Suc k))"
proof -
  have bs: "boxes (handleDeleteBox s index) = take index (boxes s) @ drop (Suc index) (boxes s)"
    using delete_filter_enumerate[of 0 index "boxes s"] by (simp add: handleDeleteBox_def)
  have sel: "selectedBoxIndex (handleDeleteBox s index)
       = (if selectedBoxIndex s = Some index then None else selectedBoxIndex s)"
    by (simp add: handleDeleteBox_def)
  have shift: "boxes (handleDeleteBox s index) ! (k - 1) = boxes s ! k
        \<and> boxAt (boxes (handleDeleteBox s index)) k = boxAt (boxes s) (Suc k)"
    if "index < k" "k < length (boxes s)"
    using that by (auto simp: bs boxAt_def nth_append min_def)
  show ?thesis using bs sel shift by auto
qed

theorem delete_box_selection_witness:
  "selectedBoxIndex ((initialSession [boxA, boxB, boxC])\<lparr> selectedBoxIndex := Some 1 \<rparr>) = Some 1
   \<and> (0::nat) < 1
   \<and> 1 < length (boxes ((initialSession [boxA, boxB, boxC])\<lparr> selectedBoxIndex := Some 1 \<rparr>))
   \<and> selectedBoxIndex
        (handleDeleteBox ((initialSession [boxA, boxB, boxC])\<lparr> selectedBoxIndex := Some 1 \<rparr>) 0)
       = Some 1
   \<and> boxes (handleDeleteBox ((initialSession [boxA, boxB, boxC])\<lparr> selectedBoxIndex := Some 1 \<rparr>) 0) ! 0
       = boxB
   \<and> boxAt (boxes (handleDeleteBox ((initialSession [boxA, boxB, boxC])\<lparr> selectedBoxIndex := Some 1 \<rparr>) 0)) 1
       = Some boxC"
  using delete_box_selection
    [of "(initialSession [boxA, boxB, boxC])\<lparr> selectedBoxIndex := Some 1 \<rparr>" 0 1]
  by (simp add: initialSession_def boxAt_def)

subsection \<open>Move\<close>

text \<open>
  One axis of a move of a box within the canvas: the new low edge \<open>nx\<close> and the new high
  edge, \<open>nx\<close> plus the rounded extent, rounded again, are within the canvas, and the new
  extent is the old one up to two roundings.
\<close>

lemma move_axis:
  assumes "0 \<le> lo" and "lo \<le> hi" and "hi \<le> 1000"
    and "finite (mathMax 0 (mathMin (fl (1000 - fl (hi - lo))) (jsPlus lo d))) = Some nx"
  shows "0 \<le> nx" and "nx \<le> fl (nx + fl (hi - lo))" and "fl (nx + fl (hi - lo)) \<le> 1000"
    and "\<bar>(fl (nx + fl (hi - lo)) - nx) - (hi - lo)\<bar> \<le> 1 / 2 ^ 43"
proof -
  define w where "w = fl (hi - lo)"
  define t where "t = fl (1000 - w)"
  have w0: "0 \<le> w" unfolding w_def using assms by (intro fl_nonneg) simp
  have w1: "w \<le> 1000"
    unfolding w_def using fl_mono[of "hi - lo" 1000] assms by simp
  have we: "\<bar>w - (hi - lo)\<bar> \<le> 1 / 2 ^ 44"
    unfolding w_def using assms by (intro fl_error_1024) simp
  have t0: "0 \<le> t" unfolding t_def using w1 by (intro fl_nonneg) simp
  have te: "\<bar>t - (1000 - w)\<bar> \<le> 1 / 2 ^ 44"
    unfolding t_def using w0 w1 by (intro fl_error_1024) simp
  have tt: "fl t = t" by (simp add: t_def)
  from assms(4) have nx: "0 \<le> nx \<and> nx \<le> t \<and> fl nx = nx"
    using t0 tt by (cases d) (auto simp: w_def[symmetric] t_def[symmetric] max_def min_def)
  then show "0 \<le> nx" by simp
  have "fl nx \<le> fl (nx + w)"
    using w0 by (intro fl_mono) simp
  then show "nx \<le> fl (nx + fl (hi - lo))"
    using nx by (simp add: w_def)
  have "nx + w \<le> 1000 + 1 / 2 ^ 44"
    using nx te by linarith
  then show "fl (nx + fl (hi - lo)) \<le> 1000"
    unfolding w_def[symmetric] by (rule fl_le_1000)
  have fe: "\<bar>fl (nx + w) - (nx + w)\<bar> \<le> 1 / 2 ^ 44"
    using nx w0 \<open>nx + w \<le> 1000 + 1 / 2 ^ 44\<close> by (intro fl_error_1024) simp
  have "(1::real) / 2 ^ 43 = 1 / 2 ^ 44 + 1 / 2 ^ 44" by simp
  with we fe show "\<bar>(fl (nx + fl (hi - lo)) - nx) - (hi - lo)\<bar> \<le> 1 / 2 ^ 43"
    unfolding w_def[symmetric] by linarith
qed

lemma moveBox_inCanvas:
  assumes "inCanvas b" and "moveBox b deltaX deltaY = Some nb"
  shows "inCanvas nb"
    and "\<bar>(xmax nb - xmin nb) - (xmax b - xmin b)\<bar> \<le> 1 / 2 ^ 43"
    and "\<bar>(ymax nb - ymin nb) - (ymax b - ymin b)\<bar> \<le> 1 / 2 ^ 43"
proof -
  from assms(2) obtain nx ny where
    nx: "finite (mathMax 0 (mathMin (fl (1000 - fl (xmax b - xmin b))) (jsPlus (xmin b) deltaX))) = Some nx"
    and ny: "finite (mathMax 0 (mathMin (fl (1000 - fl (ymax b - ymin b))) (jsPlus (ymin b) deltaY))) = Some ny"
    and nb: "nb = \<lparr> ymin = ny, xmin = nx, ymax = fl (ny + fl (ymax b - ymin b)),
                     xmax = fl (nx + fl (xmax b - xmin b)) \<rparr>"
    by (auto simp: moveBox_def split: option.splits)
  from assms(1) have b: "0 \<le> xmin b" "xmin b \<le> xmax b" "xmax b \<le> 1000"
    "0 \<le> ymin b" "ymin b \<le> ymax b" "ymax b \<le> 1000"
    by (simp_all add: inCanvas_def)
  note x = move_axis[OF b(1,2,3) nx] and y = move_axis[OF b(4,5,6) ny]
  show "inCanvas nb"
    using x(1,2,3) y(1,2,3) by (simp add: inCanvas_def nb)
  show "\<bar>(xmax nb - xmin nb) - (xmax b - xmin b)\<bar> \<le> 1 / 2 ^ 43"
    using x(4) by (simp add: nb)
  show "\<bar>(ymax nb - ymin nb) - (ymax b - ymin b)\<bar> \<le> 1 / 2 ^ 43"
    using y(4) by (simp add: nb)
qed

lemma moveBox_finite:
  "\<exists>nb. moveBox b (Finite dx) (Finite dy) = Some nb"
  by (simp add: moveBox_def)

lemma pointerDelta_finite:
  "rectSize \<noteq> 0 \<Longrightarrow> \<exists>v. pointerDelta client start rectSize = Finite v"
  by (simp add: pointerDelta_def jsDivide_def)

lemma sizeNear_Suc: "sizeNear w0 h0 n b \<Longrightarrow> sizeNear w0 h0 (Suc n) b"
proof -
  have "real n / 2 ^ 43 \<le> real (Suc n) / 2 ^ 43"
    by (simp add: divide_right_mono)
  then show "sizeNear w0 h0 n b \<Longrightarrow> sizeNear w0 h0 (Suc n) b"
    unfolding sizeNear_def by linarith
qed

lemma sizeNear_moved:
  assumes "sizeNear w0 h0 n b"
    and "\<bar>(xmax nb - xmin nb) - (xmax b - xmin b)\<bar> \<le> 1 / 2 ^ 43"
    and "\<bar>(ymax nb - ymin nb) - (ymax b - ymin b)\<bar> \<le> 1 / 2 ^ 43"
  shows "sizeNear w0 h0 (Suc n) nb"
proof -
  have "real (Suc n) / 2 ^ 43 = real n / 2 ^ 43 + 1 / 2 ^ 43"
    by (simp add: add_divide_distrib)
  with assms show ?thesis
    unfolding sizeNear_def by linarith
qed

lemma move_step:
  assumes "moveInv i w0 h0 n s" and "isMoveOp e"
  shows "(step initialBoxes s e = Inl NonFinite
          \<or> (\<exists>s'. step initialBoxes s e = Inr s' \<and> moveInv i w0 h0 (Suc n) s'
                   \<and> length (boxes s') = length (boxes s)))
         \<and> (finiteRect e \<longrightarrow> (\<exists>s'. step initialBoxes s e = Inr s'))"
proof -
  from assms(1) have inv: "i < length (boxes s)" "inCanvas (boxes s ! i)"
    "sizeNear w0 h0 n (boxes s ! i)"
    by (simp_all add: moveInv_def)
  note near = sizeNear_Suc[OF inv(3)]
  show ?thesis
  proof (cases e)
    case (MoveStart index clientX clientY)
    have "moveInv i w0 h0 (Suc n) (handleMoveStart s index clientX clientY)"
      using inv near by (simp add: moveInv_def handleMoveStart_def boxAt_def)
    then show ?thesis
      using MoveStart by (simp add: handleMoveStart_def)
  next
    case PointerUp
    have "moveInv i w0 h0 (Suc n) (handlePointerUp s)"
      using inv near by (simp add: moveInv_def handlePointerUp_def)
    then show ?thesis
      using PointerUp by (simp add: handlePointerUp_def)
  next
    case (PointerMove clientX clientY rectWidth rectHeight)
    define dX where "dX = pointerDelta clientX (fst (startPos s)) rectWidth"
    define dY where "dY = pointerDelta clientY (snd (startPos s)) rectHeight"
    show ?thesis
    proof (cases "\<exists>active b. activeBoxIndex s = Some active \<and> startBoxState s = Some b")
      case False
      then have "handlePointerMove s clientX clientY rectWidth rectHeight = Inr s"
        by (auto simp: handlePointerMove_def split: option.splits)
      moreover have "moveInv i w0 h0 (Suc n) s"
        using assms(1) False inv near by (auto simp: moveInv_def split: option.splits)
      ultimately show ?thesis using PointerMove by simp
    next
      case True
      then obtain active b where ab: "activeBoxIndex s = Some active" "startBoxState s = Some b"
        by blast
      with assms(1) have mv: "interactionMode s = Some Move" "active < length (boxes s)"
        and snap: "active = i \<Longrightarrow> inCanvas b \<and> sizeNear w0 h0 n b"
        by (simp_all add: moveInv_def)
      show ?thesis
      proof (cases "moveBox b dX dY")
        case None
        then have "handlePointerMove s clientX clientY rectWidth rectHeight = Inl NonFinite"
          using ab mv by (simp add: handlePointerMove_def Let_def dX_def dY_def)
        moreover have "\<not> finiteRect e"
        proof
          assume "finiteRect e"
          with PointerMove have "rectWidth \<noteq> 0" "rectHeight \<noteq> 0" by simp_all
          then obtain vx vy where "dX = Finite vx" "dY = Finite vy"
            using pointerDelta_finite unfolding dX_def dY_def by metis
          with moveBox_finite[of b vx vy] None show False by simp
        qed
        ultimately show ?thesis using PointerMove by simp
      next
        case (Some nb)
        let ?s' = "s\<lparr> boxes := (boxes s)[active := nb] \<rparr>"
        have res: "handlePointerMove s clientX clientY rectWidth rectHeight = Inr ?s'"
          using ab mv Some by (simp add: handlePointerMove_def Let_def dX_def dY_def updateBox_def)
        have "inCanvas (boxes ?s' ! i) \<and> sizeNear w0 h0 (Suc n) (boxes ?s' ! i)"
        proof (cases "active = i")
          case True
          with snap have b: "inCanvas b" "sizeNear w0 h0 n b" by simp_all
          from moveBox_inCanvas[OF b(1) Some] sizeNear_moved[OF b(2)]
          have "inCanvas nb" "sizeNear w0 h0 (Suc n) nb" by simp_all
          with True inv(1) show ?thesis by simp
        next
          case False
          with inv near show ?thesis by simp
        qed
        moreover have "active = i \<Longrightarrow> inCanvas b \<and> sizeNear w0 h0 (Suc n) b"
          using snap sizeNear_Suc by blast
        ultimately have "moveInv i w0 h0 (Suc n) ?s'"
          using inv(1) ab mv by (simp add: moveInv_def)
        with res PointerMove show ?thesis by simp
      qed
    qed
  qed (use assms(2) in simp_all)
qed

lemma move_run:
  assumes "moveInv i w0 h0 n s" and "\<forall>e\<in>set es. isMoveOp e"
  shows "(run initialBoxes s es = Inl NonFinite
          \<or> (\<exists>s'. run initialBoxes s es = Inr s' \<and> moveInv i w0 h0 (n + length es) s'
                   \<and> length (boxes s') = length (boxes s)))
         \<and> ((\<forall>e\<in>set es. finiteRect e) \<longrightarrow> (\<exists>s'. run initialBoxes s es = Inr s'))"
  using assms
proof (induction es arbitrary: s n)
  case Nil
  then show ?case by simp
next
  case (Cons e es)
  from Cons.prems(2) have e: "isMoveOp e" and es: "\<forall>e\<in>set es. isMoveOp e" by simp_all
  note st = move_step[OF Cons.prems(1) e, of initialBoxes]
  show ?case
  proof (cases "step initialBoxes s e")
    case (Inl f)
    with st have "f = NonFinite" "\<not> finiteRect e" by auto
    with Inl show ?thesis by simp
  next
    case (Inr s1)
    with st have s1: "moveInv i w0 h0 (Suc n) s1" "length (boxes s1) = length (boxes s)"
      by auto
    from Cons.IH[OF s1(1) es] Inr s1(2) show ?thesis by auto
  qed
qed

lemma moveBox_clamped_left:
  assumes "inCanvas b" and "belowZero (jsPlus (xmin b) deltaX)"
    and "moveBox b deltaX deltaY = Some nb"
  shows "xmin nb = 0 \<and> xmax nb = fl (xmax b - xmin b)"
proof -
  have "finite (mathMax 0 (mathMin (fl (1000 - fl (xmax b - xmin b))) (jsPlus (xmin b) deltaX)))
          = Some 0"
    using assms(2) by (cases deltaX) (simp_all add: min_def max_def)
  with assms(3) show ?thesis
    by (auto simp: moveBox_def split: option.splits)
qed

text \<open>
  The width is not kept exactly in binary64.  The box \<open>boxB\<close> is 300 wide.  Dragged 39 pixels to
  the left over a container 777 pixels wide, its new \<open>xmin\<close> is \<open>350 - 39000 / 777\<close>
  rounded, and \<open>xmax\<close> is that plus 300, rounded again, which is not 300 above \<open>xmin\<close>:
  the box is \<open>300 + 1 / 2 ^ 44\<close> wide (300.00000000000006).
\<close>

theorem move_changes_width_counterexample:
  "validBox boxB
   \<and> list_all isMoveOp nudgeLeft \<and> list_all finiteRect nudgeLeft
   \<and> run [] (initialSession [boxA, boxB, boxC]) nudgeLeft
       = Inr ((initialSession
                 [boxA,
                  \<lparr> ymin = 0, xmin = 5274259638412751 / 2 ^ 44, ymax = 300,
                    xmax = 659494715733597 / 2 ^ 40 \<rparr>,
                  boxC])
               \<lparr> selectedBoxIndex := Some 1, startPos := (500, 150), startBoxState := Some boxB \<rparr>)
   \<and> xmax boxB - xmin boxB = 300
   \<and> 659494715733597 / 2 ^ 40 - 5274259638412751 / 2 ^ 44 = (300 + 1 / 2 ^ 44 :: real)"
proof -
  have q: "fl (13 / 259) = 3616790434336151 / 2 ^ 56"
    using fl_eq[of "- 57" "13 / 259"] by (simp add: emin_def roundEven_def Let_def)
  have d: "fl (452098804292018875 / 9007199254740992) = 7064043817062795 / 2 ^ 47"
    using fl_eq[of "- 47" "452098804292018875 / 9007199254740992"]
    by (simp add: emin_def roundEven_def Let_def)
  have x0: "fl (42194077107302005 / 140737488355328) = 5274259638412751 / 2 ^ 44"
    using fl_eq[of "- 44" "42194077107302005 / 140737488355328"]
    by (simp add: emin_def roundEven_def Let_def)
  have x1: "fl (10551915451737551 / 17592186044416) = 659494715733597 / 2 ^ 40"
    using fl_eq[of "- 43" "10551915451737551 / 17592186044416"]
    by (simp add: emin_def roundEven_def Let_def)
  have mv: "moveBox boxB (Finite (- (7064043817062795 / 2 ^ 47))) (Finite 0)
      = Some \<lparr> ymin = 0, xmin = 5274259638412751 / 2 ^ 44, ymax = 300,
               xmax = 659494715733597 / 2 ^ 40 \<rparr>"
    by (simp add: moveBox_def boxB_def fl_simps x0 x1)
  have pd: "pointerDelta 461 500 777 = Finite (- (7064043817062795 / 2 ^ 47))"
    by (simp add: pointerDelta_def jsDivide_def fl_simps q d)
  have pd0: "pointerDelta 150 150 500 = Finite 0"
    by (simp add: pointerDelta_def jsDivide_def fl_simps)
  have "run [] (initialSession [boxA, boxB, boxC]) nudgeLeft
       = Inr ((initialSession
                 [boxA,
                  \<lparr> ymin = 0, xmin = 5274259638412751 / 2 ^ 44, ymax = 300,
                    xmax = 659494715733597 / 2 ^ 40 \<rparr>,
                  boxC])
               \<lparr> selectedBoxIndex := Some 1, startPos := (500, 150), startBoxState := Some boxB \<rparr>)"
    using mv pd pd0
    by (simp add: nudgeLeft_def initialSession_def handleMoveStart_def handlePointerMove_def
        handlePointerUp_def boxAt_def updateBox_def Let_def)
  then show ?thesis
    by (simp add: validBox_def boxB_def nudgeLeft_def)
qed

text \<open>
  Claim C3.  Take a box within the canvas, \<open>0 \<le> xmin \<le> xmax \<le> 1000\<close> and
  \<open>0 \<le> ymin \<le> ymax \<le> 1000\<close>, at index \<open>i\<close> of a session with no drag in progress, and
  any sequence of events of move gestures (pointer down on any box, pointer moves with any
  deltas, pointer up).  Either a pointer move made a coordinate NaN, which needs a
  container of size zero, or the sequence runs through, and then the box at \<open>i\<close> is within
  the canvas and its width and height differ from those before by at most \<open>2 ^ - 43\<close> for
  every event; so \<open>xmin < xmax\<close> and \<open>ymin < ymax\<close> continue to hold for a box that is wider
  and higher than that.  A move whose new \<open>xmin\<close> would be negative gives \<open>xmin = 0\<close> and
  for \<open>xmax\<close> the width as binary64 arithmetic computes it, \<open>xmax - xmin\<close> rounded.
\<close>

theorem move_keeps_size_up_to_rounding:
  "(i < length (boxes s) \<and> inCanvas (boxes s ! i) \<and> activeBoxIndex s = None
      \<and> (\<forall>e\<in>set es. isMoveOp e) \<longrightarrow>
      (run initialBoxes s es = Inl NonFinite
       \<or> (\<exists>s'. run initialBoxes s es = Inr s' \<and> length (boxes s') = length (boxes s)
             \<and> inCanvas (boxes s' ! i)
             \<and> \<bar>(xmax (boxes s' ! i) - xmin (boxes s' ! i))
                 - (xmax (boxes s ! i) - xmin (boxes s ! i))\<bar> \<le> real (length es) / 2 ^ 43
             \<and> \<bar>(ymax (boxes s' ! i) - ymin (boxes s' ! i))
                 - (ymax (boxes s ! i) - ymin (boxes s ! i))\<bar> \<le> real (length es) / 2 ^ 43
             \<and> (real (length es) / 2 ^ 43 < xmax (boxes s ! i) - xmin (boxes s ! i)
                  \<longrightarrow> xmin (boxes s' ! i) < xmax (boxes s' ! i))
             \<and> (real (length es) / 2 ^ 43 < ymax (boxes s ! i) - ymin (boxes s ! i)
                  \<longrightarrow> ymin (boxes s' ! i) < ymax (boxes s' ! i))))
      \<and> ((\<forall>e\<in>set es. finiteRect e) \<longrightarrow> (\<exists>s'. run initialBoxes s es = Inr s')))
   \<and> (inCanvas b \<and> belowZero (jsPlus (xmin b) deltaX) \<and> moveBox b deltaX deltaY = Some nb \<longrightarrow>
        xmin nb = 0 \<and> xmax nb = fl (xmax b - xmin b))"
proof -
  have seq: "(run initialBoxes s es = Inl NonFinite
       \<or> (\<exists>s'. run initialBoxes s es = Inr s' \<and> length (boxes s') = length (boxes s)
             \<and> inCanvas (boxes s' ! i)
             \<and> \<bar>(xmax (boxes s' ! i) - xmin (boxes s' ! i))
                 - (xmax (boxes s ! i) - xmin (boxes s ! i))\<bar> \<le> real (length es) / 2 ^ 43
             \<and> \<bar>(ymax (boxes s' ! i) - ymin (boxes s' ! i))
                 - (ymax (boxes s ! i) - ymin (boxes s ! i))\<bar> \<le> real (length es) / 2 ^ 43
             \<and> (real (length es) / 2 ^ 43 < xmax (boxes s ! i) - xmin (boxes s ! i)
                  \<longrightarrow> xmin (boxes s' ! i) < xmax (boxes s' ! i))
             \<and> (real (length es) / 2 ^ 43 < ymax (boxes s ! i) - ymin (boxes s ! i)
                  \<longrightarrow> ymin (boxes s' ! i) < ymax (boxes s' ! i))))
      \<and> ((\<forall>e\<in>set es. finiteRect e) \<longrightarrow> (\<exists>s'. run initialBoxes s es = Inr s'))"
    if h: "i < length (boxes s)" "inCanvas (boxes s ! i)" "activeBoxIndex s = None"
      "\<forall>e\<in>set es. isMoveOp e"
  proof -
    define w0 where "w0 = xmax (boxes s ! i) - xmin (boxes s ! i)"
    define h0 where "h0 = ymax (boxes s ! i) - ymin (boxes s ! i)"
    have "moveInv i w0 h0 0 s"
      using h(1,2,3) by (simp add: moveInv_def sizeNear_def w0_def h0_def)
    from move_run[OF this h(4), of initialBoxes]
    have r: "run initialBoxes s es = Inl NonFinite
          \<or> (\<exists>s'. run initialBoxes s es = Inr s' \<and> moveInv i w0 h0 (length es) s'
                   \<and> length (boxes s') = length (boxes s))"
      and f: "(\<forall>e\<in>set es. finiteRect e) \<longrightarrow> (\<exists>s'. run initialBoxes s es = Inr s')"
      by simp_all
    from r have "run initialBoxes s es = Inl NonFinite
       \<or> (\<exists>s'. run initialBoxes s es = Inr s' \<and> length (boxes s') = length (boxes s)
             \<and> inCanvas (boxes s' ! i)
             \<and> \<bar>(xmax (boxes s' ! i) - xmin (boxes s' ! i)) - w0\<bar> \<le> real (length es) / 2 ^ 43
             \<and> \<bar>(ymax (boxes s' ! i) - ymin (boxes s' ! i)) - h0\<bar> \<le> real (length es) / 2 ^ 43
             \<and> (real (length es) / 2 ^ 43 < w0 \<longrightarrow> xmin (boxes s' ! i) < xmax (boxes s' ! i))
             \<and> (real (length es) / 2 ^ 43 < h0 \<longrightarrow> ymin (boxes s' ! i) < ymax (boxes s' ! i)))"
    proof
      assume "run initialBoxes s es = Inl NonFinite"
      then show ?thesis by simp
    next
      assume "\<exists>s'. run initialBoxes s es = Inr s' \<and> moveInv i w0 h0 (length es) s'
                   \<and> length (boxes s') = length (boxes s)"
      then obtain s' where s': "run initialBoxes s es = Inr s'"
        "moveInv i w0 h0 (length es) s'" "length (boxes s') = length (boxes s)" by blast
      from s'(2) have c: "inCanvas (boxes s' ! i)"
        and nx: "\<bar>(xmax (boxes s' ! i) - xmin (boxes s' ! i)) - w0\<bar> \<le> real (length es) / 2 ^ 43"
        and ny: "\<bar>(ymax (boxes s' ! i) - ymin (boxes s' ! i)) - h0\<bar> \<le> real (length es) / 2 ^ 43"
        by (simp_all add: moveInv_def sizeNear_def)
      have sx: "xmin (boxes s' ! i) < xmax (boxes s' ! i)" if "real (length es) / 2 ^ 43 < w0"
        using nx that by linarith
      have sy: "ymin (boxes s' ! i) < ymax (boxes s' ! i)" if "real (length es) / 2 ^ 43 < h0"
        using ny that by linarith
      from s'(1,3) c nx ny sx sy show ?thesis by simp
    qed
    with f show ?thesis unfolding w0_def h0_def by blast
  qed
  from seq moveBox_clamped_left[of b deltaX deltaY nb] show ?thesis by blast
qed

theorem move_keeps_size_up_to_rounding_witness:
  "1 < length (boxes (initialSession [boxA, boxB, boxC]))
   \<and> inCanvas (boxes (initialSession [boxA, boxB, boxC]) ! 1)
   \<and> activeBoxIndex (initialSession [boxA, boxB, boxC]) = None
   \<and> list_all isMoveOp dragLeft \<and> list_all finiteRect dragLeft
   \<and> inCanvas boxB \<and> belowZero (jsPlus (xmin boxB) (Finite (- 1000)))
   \<and> moveBox boxB (Finite (- 1000)) (Finite 0)
       = Some \<lparr> ymin = 0, xmin = 0, ymax = 300, xmax = 300 \<rparr>
   \<and> run [] (initialSession [boxA, boxB, boxC]) dragLeft
       = Inr ((initialSession [boxA, \<lparr> ymin = 700, xmin = 0, ymax = 1000, xmax = 300 \<rparr>, boxC])
               \<lparr> selectedBoxIndex := Some 1, startPos := (500, 150), startBoxState := Some boxB \<rparr>)
   \<and> (\<exists>s'. run [] (initialSession [boxA, boxB, boxC]) dragLeft = Inr s'
          \<and> inCanvas (boxes s' ! 1)
          \<and> \<bar>(xmax (boxes s' ! 1) - xmin (boxes s' ! 1)) - 300\<bar> \<le> 4 / 2 ^ 43)
   \<and> xmin \<lparr> ymin = 0, xmin = 0, ymax = 300, xmax = 300 \<rparr> = 0
   \<and> xmax \<lparr> ymin = 0, xmin = 0, ymax = 300, xmax = 300 \<rparr> = fl (xmax boxB - xmin boxB)"
proof -
  have pd: "pointerDelta 100 500 400 = Finite (- 1000)" "pointerDelta 150 150 200 = Finite 0"
    "pointerDelta 350 150 200 = Finite 1000"
    by (simp_all add: pointerDelta_def jsDivide_def fl_simps)
  have mv: "moveBox boxB (Finite (- 1000)) (Finite 0)
       = Some \<lparr> ymin = 0, xmin = 0, ymax = 300, xmax = 300 \<rparr>"
    "moveBox boxB (Finite (- 1000)) (Finite 1000)
       = Some \<lparr> ymin = 700, xmin = 0, ymax = 1000, xmax = 300 \<rparr>"
    by (simp_all add: moveBox_def boxB_def fl_simps)
  have r: "run [] (initialSession [boxA, boxB, boxC]) dragLeft
       = Inr ((initialSession [boxA, \<lparr> ymin = 700, xmin = 0, ymax = 1000, xmax = 300 \<rparr>, boxC])
               \<lparr> selectedBoxIndex := Some 1, startPos := (500, 150), startBoxState := Some boxB \<rparr>)"
    using pd mv
    by (simp add: dragLeft_def initialSession_def handleMoveStart_def handlePointerMove_def
        handlePointerUp_def boxAt_def updateBox_def Let_def)
  have h: "1 < length (boxes (initialSession [boxA, boxB, boxC]))
     \<and> inCanvas (boxes (initialSession [boxA, boxB, boxC]) ! 1)
     \<and> activeBoxIndex (initialSession [boxA, boxB, boxC]) = None
     \<and> (\<forall>e\<in>set dragLeft. isMoveOp e)"
    and h2: "inCanvas boxB \<and> belowZero (jsPlus (xmin boxB) (Finite (- 1000)))"
    and l: "list_all isMoveOp dragLeft" "list_all finiteRect dragLeft"
    by (simp_all add: initialSession_def inCanvas_def boxA_def boxB_def dragLeft_def fl_simps)
  note t = move_keeps_size_up_to_rounding
      [of 1 "initialSession [boxA, boxB, boxC]" dragLeft "[]" boxB "Finite (- 1000)" "Finite 0"
          "\<lparr> ymin = 0, xmin = 0, ymax = 300, xmax = 300 \<rparr>"]
  from t h h2 mv(1) have c: "xmin \<lparr> ymin = 0, xmin = 0, ymax = 300, xmax = 300 \<rparr> = 0
     \<and> xmax \<lparr> ymin = 0, xmin = 0, ymax = 300, xmax = 300 \<rparr> = fl (xmax boxB - xmin boxB)"
    by blast
  from t h r have "\<exists>s'. run [] (initialSession [boxA, boxB, boxC]) dragLeft = Inr s'
          \<and> inCanvas (boxes s' ! 1)
          \<and> \<bar>(xmax (boxes s' ! 1) - xmin (boxes s' ! 1)) - 300\<bar> \<le> 4 / 2 ^ 43"
    by (simp add: initialSession_def boxB_def dragLeft_def)
  with h h2 l mv(1) r c show ?thesis by blast
qed

subsection \<open>Resize\<close>

text \<open>
  For a box narrower than the minimum size the minimum size wins over the canvas bound:
  the box \<open>edgeBox\<close>, within bounds, grabbed at its south-east handle and not moved at
  all, gets \<open>xmax = 1010\<close>.
\<close>

theorem resize_any_box_counterexample:
  "handlePointerMove (handleResizeStart (initialSession [edgeBox]) 0 ''se'' 10 10) 10 10 800 500
     = Inr ((handleResizeStart (initialSession [edgeBox]) 0 ''se'' 10 10)
              \<lparr> boxes := [\<lparr> ymin = 0, xmin = 990, ymax = 100, xmax = 1010 \<rparr>] \<rparr>)
   \<and> validBox edgeBox
   \<and> \<not> xmax \<lparr> ymin = 0, xmin = 990, ymax = 100, xmax = 1010 \<rparr> \<le> 1000"
  by (simp add: handlePointerMove_def handleResizeStart_def initialSession_def edgeBox_def
      boxAt_def updateBox_def resizeBox_def minSize_def validBox_def Let_def
      pointerDelta_def jsDivide_def fl_simps)

lemma resize_low_edge:
  assumes "0 \<le> lo" and "hi \<le> 1000" and "minSize \<le> hi - lo" and "d \<noteq> NotANumber"
  shows "\<exists>v. finite (mathMin (fl (hi - minSize)) (mathMax 0 (jsPlus lo d))) = Some v
           \<and> 0 \<le> v \<and> 20 - 1 / 2 ^ 44 \<le> hi - v"
proof -
  have t0: "0 \<le> fl (hi - minSize)"
    using assms by (intro fl_nonneg) simp
  have "\<bar>hi - minSize\<bar> < 1024"
    using assms by (simp add: minSize_def)
  from fl_error_1024[OF this] have t1: "20 - 1 / 2 ^ 44 \<le> hi - fl (hi - minSize)"
    unfolding minSize_def by linarith
  show ?thesis
    using assms(4) t0 t1 by (cases d) (auto simp: min_def max_def)
qed

lemma resize_high_edge:
  assumes "0 \<le> lo" and "hi \<le> 1000" and "minSize \<le> hi - lo" and "d \<noteq> NotANumber"
  shows "\<exists>v. finite (mathMax (fl (lo + minSize)) (mathMin 1000 (jsPlus hi d))) = Some v
           \<and> v \<le> 1000 \<and> 20 - 1 / 2 ^ 44 \<le> v - lo"
proof -
  have "lo + minSize \<le> 1000" using assms by simp
  from fl_mono[OF this] have t0: "fl (lo + minSize) \<le> 1000" by simp
  have "\<bar>lo + minSize\<bar> < 1024"
    using assms by (simp add: minSize_def)
  from fl_error_1024[OF this] have t1: "20 - 1 / 2 ^ 44 \<le> fl (lo + minSize) - lo"
    unfolding minSize_def by linarith
  show ?thesis
    using assms(4) t0 t1 by (cases d) (auto simp: min_def max_def)
qed

lemma pointerDelta_NaN:
  "pointerDelta client start rectSize = NotANumber \<Longrightarrow> rectSize = 0"
  using pointerDelta_finite[of rectSize client start] by auto

text \<open>
  The two edges of one axis, for a handle that names the low edge (\<open>w\<close>), the high edge
  (\<open>e\<close>) or neither.
\<close>

lemma resize_axis:
  assumes "0 \<le> lo" and "hi \<le> 1000" and "minSize \<le> hi - lo" and "\<not> (w \<and> e)"
  shows "(d = NotANumber \<and> (w \<or> e)
          \<and> Option.bind (if w then finite (mathMin (fl (hi - minSize)) (mathMax 0 (jsPlus lo d)))
                          else Some lo)
              (\<lambda>v0. Option.bind
                       (if e then finite (mathMax (fl (v0 + minSize)) (mathMin 1000 (jsPlus hi d)))
                        else Some hi)
                       (\<lambda>v1. k v0 v1)) = None)
       \<or> (\<exists>v0 v1.
            Option.bind (if w then finite (mathMin (fl (hi - minSize)) (mathMax 0 (jsPlus lo d)))
                          else Some lo)
              (\<lambda>v0. Option.bind
                       (if e then finite (mathMax (fl (v0 + minSize)) (mathMin 1000 (jsPlus hi d)))
                        else Some hi)
                       (\<lambda>v1. k v0 v1)) = k v0 v1
            \<and> 0 \<le> v0 \<and> v1 \<le> 1000 \<and> 20 - 1 / 2 ^ 44 \<le> v1 - v0
            \<and> (if w then finite (mathMin (fl (hi - minSize)) (mathMax 0 (jsPlus lo d))) = Some v0
                else v0 = lo)
            \<and> (if e then finite (mathMax (fl (lo + minSize)) (mathMin 1000 (jsPlus hi d))) = Some v1
                else v1 = hi))"
proof (cases "d = NotANumber \<and> (w \<or> e)")
  case True
  then show ?thesis using assms(4) by auto
next
  case False
  show ?thesis
  proof (cases w)
    case True
    with False assms(4) have d: "d \<noteq> NotANumber" and e: "\<not> e" by auto
    from resize_low_edge[OF assms(1-3) d] obtain v
      where "finite (mathMin (fl (hi - minSize)) (mathMax 0 (jsPlus lo d))) = Some v"
        "0 \<le> v" "20 - 1 / 2 ^ 44 \<le> hi - v" by blast
    with True e assms(2) show ?thesis by auto
  next
    case nw: False
    show ?thesis
    proof (cases e)
      case True
      with False have d: "d \<noteq> NotANumber" by auto
      from resize_high_edge[OF assms(1-3) d] obtain v
        where "finite (mathMax (fl (lo + minSize)) (mathMin 1000 (jsPlus hi d))) = Some v"
          "v \<le> 1000" "20 - 1 / 2 ^ 44 \<le> v - lo" by blast
      with True nw assms(1) show ?thesis by auto
    next
      case False
      have "(20::real) - 1 / 2 ^ 44 \<le> 20" by simp
      with False nw assms(1-3) show ?thesis by (auto simp: minSize_def)
    qed
  qed
qed

lemma resizeBox_sized:
  assumes "sizedBox b" and "\<not> (CHR ''w'' \<in> set handle \<and> CHR ''e'' \<in> set handle)"
    and "\<not> (CHR ''n'' \<in> set handle \<and> CHR ''s'' \<in> set handle)"
  shows "(resizeBox handle b deltaX deltaY = None \<and> (deltaX = NotANumber \<or> deltaY = NotANumber))
       \<or> (\<exists>nb. resizeBox handle b deltaX deltaY = Some nb
            \<and> 20 - 1 / 2 ^ 44 \<le> xmax nb - xmin nb \<and> 20 - 1 / 2 ^ 44 \<le> ymax nb - ymin nb
            \<and> 0 \<le> xmin nb \<and> xmax nb \<le> 1000 \<and> 0 \<le> ymin nb \<and> ymax nb \<le> 1000
            \<and> (if CHR ''w'' \<in> set handle
                then finite (mathMin (fl (xmax b - minSize)) (mathMax 0 (jsPlus (xmin b) deltaX)))
                       = Some (xmin nb)
                else xmin nb = xmin b)
            \<and> (if CHR ''e'' \<in> set handle
                then finite (mathMax (fl (xmin b + minSize)) (mathMin 1000 (jsPlus (xmax b) deltaX)))
                       = Some (xmax nb)
                else xmax nb = xmax b)
            \<and> (if CHR ''n'' \<in> set handle
                then finite (mathMin (fl (ymax b - minSize)) (mathMax 0 (jsPlus (ymin b) deltaY)))
                       = Some (ymin nb)
                else ymin nb = ymin b)
            \<and> (if CHR ''s'' \<in> set handle
                then finite (mathMax (fl (ymin b + minSize)) (mathMin 1000 (jsPlus (ymax b) deltaY)))
                       = Some (ymax nb)
                else ymax nb = ymax b))"
proof -
  from assms(1) have x: "0 \<le> xmin b" "xmax b \<le> 1000" "minSize \<le> xmax b - xmin b"
    and y: "0 \<le> ymin b" "ymax b \<le> 1000" "minSize \<le> ymax b - ymin b"
    by (simp_all add: sizedBox_def)
  define ky where "ky = (\<lambda>v0 v1 u0 u1. Some \<lparr> ymin = u0, xmin = v0, ymax = u1, xmax = v1 \<rparr>)"
  define kx where "kx = (\<lambda>v0 v1.
    Option.bind
       (if CHR ''n'' \<in> set handle
        then finite (mathMin (fl (ymax b - minSize)) (mathMax 0 (jsPlus (ymin b) deltaY)))
        else Some (ymin b))
       (\<lambda>ymin1. Option.bind
       (if CHR ''s'' \<in> set handle
        then finite (mathMax (fl (ymin1 + minSize)) (mathMin 1000 (jsPlus (ymax b) deltaY)))
        else Some (ymax b))
       (\<lambda>ymax1. ky v0 v1 ymin1 ymax1)))"
  have unf: "resizeBox handle b deltaX deltaY =
    Option.bind
       (if CHR ''w'' \<in> set handle
        then finite (mathMin (fl (xmax b - minSize)) (mathMax 0 (jsPlus (xmin b) deltaX)))
        else Some (xmin b))
       (\<lambda>xmin1. Option.bind
       (if CHR ''e'' \<in> set handle
        then finite (mathMax (fl (xmin1 + minSize)) (mathMin 1000 (jsPlus (xmax b) deltaX)))
        else Some (xmax b))
       (\<lambda>xmax1. kx xmin1 xmax1))"
    by (simp only: resizeBox_def kx_def ky_def)
  note ax = resize_axis[OF x assms(2), of deltaX kx]
  have ay: "\<And>v0 v1. (deltaY = NotANumber \<and> kx v0 v1 = None)
       \<or> (\<exists>u0 u1. kx v0 v1 = ky v0 v1 u0 u1
            \<and> 0 \<le> u0 \<and> u1 \<le> 1000 \<and> 20 - 1 / 2 ^ 44 \<le> u1 - u0
            \<and> (if CHR ''n'' \<in> set handle
                then finite (mathMin (fl (ymax b - minSize)) (mathMax 0 (jsPlus (ymin b) deltaY)))
                       = Some u0
                else u0 = ymin b)
            \<and> (if CHR ''s'' \<in> set handle
                then finite (mathMax (fl (ymin b + minSize)) (mathMin 1000 (jsPlus (ymax b) deltaY)))
                       = Some u1
                else u1 = ymax b))"
    using resize_axis[OF y assms(3), of deltaY] unfolding kx_def by blast
  from ax show ?thesis
  proof
    assume "deltaX = NotANumber \<and> (CHR ''w'' \<in> set handle \<or> CHR ''e'' \<in> set handle)
          \<and> Option.bind (if CHR ''w'' \<in> set handle
                 then finite (mathMin (fl (xmax b - minSize)) (mathMax 0 (jsPlus (xmin b) deltaX)))
                          else Some (xmin b))
              (\<lambda>v0. Option.bind
                       (if CHR ''e'' \<in> set handle
                   then finite (mathMax (fl (v0 + minSize)) (mathMin 1000 (jsPlus (xmax b) deltaX)))
                        else Some (xmax b))
                       (\<lambda>v1. kx v0 v1)) = None"
    then show ?thesis unfolding unf by simp
  next
    assume "\<exists>v0 v1.
            Option.bind (if CHR ''w'' \<in> set handle
                 then finite (mathMin (fl (xmax b - minSize)) (mathMax 0 (jsPlus (xmin b) deltaX)))
                          else Some (xmin b))
              (\<lambda>v0. Option.bind
                       (if CHR ''e'' \<in> set handle
                   then finite (mathMax (fl (v0 + minSize)) (mathMin 1000 (jsPlus (xmax b) deltaX)))
                        else Some (xmax b))
                       (\<lambda>v1. kx v0 v1)) = kx v0 v1
            \<and> 0 \<le> v0 \<and> v1 \<le> 1000 \<and> 20 - 1 / 2 ^ 44 \<le> v1 - v0
            \<and> (if CHR ''w'' \<in> set handle
                then finite (mathMin (fl (xmax b - minSize)) (mathMax 0 (jsPlus (xmin b) deltaX)))
                       = Some v0
                else v0 = xmin b)
            \<and> (if CHR ''e'' \<in> set handle
                then finite (mathMax (fl (xmin b + minSize)) (mathMin 1000 (jsPlus (xmax b) deltaX)))
                       = Some v1
                else v1 = xmax b)"
    then obtain v0 v1 where r: "resizeBox handle b deltaX deltaY = kx v0 v1"
      and vx: "0 \<le> v0" "v1 \<le> 1000" "20 - 1 / 2 ^ 44 \<le> v1 - v0"
        "if CHR ''w'' \<in> set handle
                then finite (mathMin (fl (xmax b - minSize)) (mathMax 0 (jsPlus (xmin b) deltaX)))
                       = Some v0
                else v0 = xmin b"
        "if CHR ''e'' \<in> set handle
                then finite (mathMax (fl (xmin b + minSize)) (mathMin 1000 (jsPlus (xmax b) deltaX)))
                       = Some v1
                else v1 = xmax b"
      unfolding unf by blast
    from ay[of v0 v1] show ?thesis
    proof
      assume "deltaY = NotANumber \<and> kx v0 v1 = None"
      with r show ?thesis by simp
    next
      assume "\<exists>u0 u1. kx v0 v1 = ky v0 v1 u0 u1
            \<and> 0 \<le> u0 \<and> u1 \<le> 1000 \<and> 20 - 1 / 2 ^ 44 \<le> u1 - u0
            \<and> (if CHR ''n'' \<in> set handle
                then finite (mathMin (fl (ymax b - minSize)) (mathMax 0 (jsPlus (ymin b) deltaY)))
                       = Some u0
                else u0 = ymin b)
            \<and> (if CHR ''s'' \<in> set handle
                then finite (mathMax (fl (ymin b + minSize)) (mathMin 1000 (jsPlus (ymax b) deltaY)))
                       = Some u1
                else u1 = ymax b)"
      then obtain u0 u1 where k: "kx v0 v1 = ky v0 v1 u0 u1"
        and vy: "0 \<le> u0" "u1 \<le> 1000" "20 - 1 / 2 ^ 44 \<le> u1 - u0"
        "if CHR ''n'' \<in> set handle
                then finite (mathMin (fl (ymax b - minSize)) (mathMax 0 (jsPlus (ymin b) deltaY)))
                       = Some u0
                else u0 = ymin b"
        "if CHR ''s'' \<in> set handle
                then finite (mathMax (fl (ymin b + minSize)) (mathMin 1000 (jsPlus (ymax b) deltaY)))
                       = Some u1
                else u1 = ymax b"
        by blast
      have "resizeBox handle b deltaX deltaY
              = Some \<lparr> ymin = u0, xmin = v0, ymax = u1, xmax = v1 \<rparr>"
        using r k by (simp add: ky_def)
      with vx vy show ?thesis by simp
    qed
  qed
qed

lemma resizeHandles_axes:
  assumes "handle \<in> set resizeHandles"
  shows "\<not> (CHR ''w'' \<in> set handle \<and> CHR ''e'' \<in> set handle)"
    and "\<not> (CHR ''n'' \<in> set handle \<and> CHR ''s'' \<in> set handle)"
    and "handle \<noteq> []"
  using assms by (auto simp: resizeHandles_def)

text \<open>
  The minimum size is kept only up to rounding.  The left edge of \<open>offGridBox\<close> is
  \<open>500 + 2 ^ - 44\<close>; the handle dragged far to the left puts the right edge at that plus
  20, a tie between two binary64 numbers that rounds to 520, and the box is less than
  20 wide.
\<close>

lemma resize_below_min_size:
  "handlePointerMove resizingOffGrid 0 300 700 500
     = Inr (resizingOffGrid
              \<lparr> boxes := [\<lparr> ymin = 0, xmin = 500 + 1 / 2 ^ 44, ymax = 300, xmax = 520 \<rparr>] \<rparr>)
   \<and> sizedBox offGridBox
   \<and> 520 - (500 + 1 / 2 ^ 44) < (20::real)"
proof -
  have x: "fl (9147936743096321 / 17592186044416) = 520"
    using fl_eq[of "- 43" "9147936743096321 / 17592186044416"]
    by (simp add: emin_def roundEven_def Let_def)
  show ?thesis
    by (simp add: handlePointerMove_def resizingOffGrid_def handleResizeStart_def
        initialSession_def offGridBox_def boxAt_def updateBox_def resizeBox_def minSize_def
        sizedBox_def Let_def pointerDelta_def jsDivide_def fl_simps x)
qed

text \<open>
  Claim C4, for a snapshot box that is within [0, 1000] and at least 20 wide and high.
  A pointer move during a resize with any of the eight handles replaces the active box
  by a box that is within [0, 1000] and, up to one rounding, at least 20 wide and high
  (at least \<open>20 - 2 ^ - 44\<close>).  Each edge named in the handle is the snapshot edge plus
  its delta, clamped between the canvas bound and 20 units from the opposite edge of the
  snapshot, every sum and difference rounded; each edge not named is the snapshot's.
  The other boxes stay as they are.  The one exception needs a container of size zero:
  then a delta can be NaN, and so is the edge it moves.
\<close>

theorem resize_keeps_min_size_up_to_rounding:
  assumes "activeBoxIndex s = Some active" and "active < length (boxes s)"
    and "startBoxState s = Some b" and "sizedBox b"
    and "interactionMode s = Some Resize"
    and "resizeHandle s = Some handle" and "handle \<in> set resizeHandles"
    and "deltaX = pointerDelta clientX (fst (startPos s)) rectWidth"
    and "deltaY = pointerDelta clientY (snd (startPos s)) rectHeight"
  shows "(handlePointerMove s clientX clientY rectWidth rectHeight = Inl NonFinite
          \<and> (rectWidth = 0 \<or> rectHeight = 0))
       \<or> (\<exists>nb. handlePointerMove s clientX clientY rectWidth rectHeight
                = Inr (s\<lparr> boxes := (boxes s)[active := nb] \<rparr>)
            \<and> 20 - 1 / 2 ^ 44 \<le> xmax nb - xmin nb \<and> 20 - 1 / 2 ^ 44 \<le> ymax nb - ymin nb
            \<and> 0 \<le> xmin nb \<and> xmax nb \<le> 1000 \<and> 0 \<le> ymin nb \<and> ymax nb \<le> 1000
            \<and> (if CHR ''w'' \<in> set handle
                then finite (mathMin (fl (xmax b - 20)) (mathMax 0 (jsPlus (xmin b) deltaX)))
                       = Some (xmin nb)
                else xmin nb = xmin b)
            \<and> (if CHR ''e'' \<in> set handle
                then finite (mathMax (fl (xmin b + 20)) (mathMin 1000 (jsPlus (xmax b) deltaX)))
                       = Some (xmax nb)
                else xmax nb = xmax b)
            \<and> (if CHR ''n'' \<in> set handle
                then finite (mathMin (fl (ymax b - 20)) (mathMax 0 (jsPlus (ymin b) deltaY)))
                       = Some (ymin nb)
                else ymin nb = ymin b)
            \<and> (if CHR ''s'' \<in> set handle
                then finite (mathMax (fl (ymin b + 20)) (mathMin 1000 (jsPlus (ymax b) deltaY)))
                       = Some (ymax nb)
                else ymax nb = ymax b))"
proof -
  note ax = resizeHandles_axes[OF assms(7)]
  have hp: "handlePointerMove s clientX clientY rectWidth rectHeight =
      (case resizeBox handle b deltaX deltaY of
         None \<Rightarrow> Inl NonFinite
       | Some updates \<Rightarrow> Inr (s\<lparr> boxes := (boxes s)[active := updates] \<rparr>))"
    using assms(1,2,3,5,6,8,9) ax(3)
    by (simp add: handlePointerMove_def updateBox_def Let_def split: option.splits)
  from resizeBox_sized[OF assms(4) ax(1,2), of deltaX deltaY] show ?thesis
  proof
    assume n: "resizeBox handle b deltaX deltaY = None
               \<and> (deltaX = NotANumber \<or> deltaY = NotANumber)"
    then have "rectWidth = 0 \<or> rectHeight = 0"
      using pointerDelta_NaN assms(8,9) by metis
    with n hp show ?thesis by simp
  next
    assume "\<exists>nb. resizeBox handle b deltaX deltaY = Some nb
            \<and> 20 - 1 / 2 ^ 44 \<le> xmax nb - xmin nb \<and> 20 - 1 / 2 ^ 44 \<le> ymax nb - ymin nb
            \<and> 0 \<le> xmin nb \<and> xmax nb \<le> 1000 \<and> 0 \<le> ymin nb \<and> ymax nb \<le> 1000
            \<and> (if CHR ''w'' \<in> set handle
                then finite (mathMin (fl (xmax b - minSize)) (mathMax 0 (jsPlus (xmin b) deltaX)))
                       = Some (xmin nb)
                else xmin nb = xmin b)
            \<and> (if CHR ''e'' \<in> set handle
                then finite (mathMax (fl (xmin b + minSize)) (mathMin 1000 (jsPlus (xmax b) deltaX)))
                       = Some (xmax nb)
                else xmax nb = xmax b)
            \<and> (if CHR ''n'' \<in> set handle
                then finite (mathMin (fl (ymax b - minSize)) (mathMax 0 (jsPlus (ymin b) deltaY)))
                       = Some (ymin nb)
                else ymin nb = ymin b)
            \<and> (if CHR ''s'' \<in> set handle
                then finite (mathMax (fl (ymin b + minSize)) (mathMin 1000 (jsPlus (ymax b) deltaY)))
                       = Some (ymax nb)
                else ymax nb = ymax b)"
    then obtain nb where nb: "resizeBox handle b deltaX deltaY = Some nb"
      and rest: "20 - 1 / 2 ^ 44 \<le> xmax nb - xmin nb \<and> 20 - 1 / 2 ^ 44 \<le> ymax nb - ymin nb
            \<and> 0 \<le> xmin nb \<and> xmax nb \<le> 1000 \<and> 0 \<le> ymin nb \<and> ymax nb \<le> 1000
            \<and> (if CHR ''w'' \<in> set handle
                then finite (mathMin (fl (xmax b - 20)) (mathMax 0 (jsPlus (xmin b) deltaX)))
                       = Some (xmin nb)
                else xmin nb = xmin b)
            \<and> (if CHR ''e'' \<in> set handle
                then finite (mathMax (fl (xmin b + 20)) (mathMin 1000 (jsPlus (xmax b) deltaX)))
                       = Some (xmax nb)
                else xmax nb = xmax b)
            \<and> (if CHR ''n'' \<in> set handle
                then finite (mathMin (fl (ymax b - 20)) (mathMax 0 (jsPlus (ymin b) deltaY)))
                       = Some (ymin nb)
                else ymin nb = ymin b)
            \<and> (if CHR ''s'' \<in> set handle
                then finite (mathMax (fl (ymin b + 20)) (mathMin 1000 (jsPlus (ymax b) deltaY)))
                       = Some (ymax nb)
                else ymax nb = ymax b)"
      unfolding minSize_def by blast
    from nb hp have "handlePointerMove s clientX clientY rectWidth rectHeight
                = Inr (s\<lparr> boxes := (boxes s)[active := nb] \<rparr>)" by simp
    with rest show ?thesis by blast
  qed
qed

theorem resize_keeps_min_size_up_to_rounding_witness:
  "activeBoxIndex resizingSE = Some 0 \<and> 0 < length (boxes resizingSE)
   \<and> startBoxState resizingSE = Some boxA \<and> sizedBox boxA
   \<and> interactionMode resizingSE = Some Resize
   \<and> resizeHandle resizingSE = Some ''se'' \<and> ''se'' \<in> set resizeHandles
   \<and> Finite 1000 = pointerDelta 900 (fst (startPos resizingSE)) 600
   \<and> Finite (- 1000) = pointerDelta 0 (snd (startPos resizingSE)) 300
   \<and> handlePointerMove resizingSE 900 0 600 300
       = Inr (resizingSE\<lparr> boxes := [\<lparr> ymin = 0, xmin = 0, ymax = 20, xmax = 1000 \<rparr>, boxB, boxC] \<rparr>)"
proof -
  have h: "activeBoxIndex resizingSE = Some 0" "0 < length (boxes resizingSE)"
    "startBoxState resizingSE = Some boxA" "sizedBox boxA"
    "interactionMode resizingSE = Some Resize"
    "resizeHandle resizingSE = Some ''se''" "''se'' \<in> set resizeHandles"
    "Finite 1000 = pointerDelta 900 (fst (startPos resizingSE)) 600"
    "Finite (- 1000) = pointerDelta 0 (snd (startPos resizingSE)) 300"
    by (simp_all add: resizingSE_def handleResizeStart_def initialSession_def boxAt_def
        sizedBox_def minSize_def boxA_def resizeHandles_def pointerDelta_def jsDivide_def
        fl_simps)
  from resize_keeps_min_size_up_to_rounding[OF h]
  obtain nb where nb: "handlePointerMove resizingSE 900 0 600 300
                = Inr (resizingSE\<lparr> boxes := (boxes resizingSE)[0 := nb] \<rparr>)"
    "xmin nb = xmin boxA" "ymin nb = ymin boxA"
    "finite (mathMax (fl (xmin boxA + 20)) (mathMin 1000 (jsPlus (xmax boxA) (Finite 1000))))
       = Some (xmax nb)"
    "finite (mathMax (fl (ymin boxA + 20)) (mathMin 1000 (jsPlus (ymax boxA) (Finite (- 1000)))))
       = Some (ymax nb)"
    by auto
  have "nb = \<lparr> ymin = 0, xmin = 0, ymax = 20, xmax = 1000 \<rparr>"
    using nb(2-5) by (cases nb) (simp add: boxA_def fl_simps)
  with nb(1) have "handlePointerMove resizingSE 900 0 600 300
       = Inr (resizingSE\<lparr> boxes := [\<lparr> ymin = 0, xmin = 0, ymax = 20, xmax = 1000 \<rparr>, boxB, boxC] \<rparr>)"
    by (simp add: resizingSE_def handleResizeStart_def initialSession_def)
  with h show ?thesis by simp
qed

subsection \<open>Dimension-Sync\<close>

text \<open>
  Claim C2 at a failing input.  The source \<open>boxA\<close> is 300 wide and high; the target
  \<open>cornerBox\<close> has its center at \<open>x = 950\<close>, so resized about its center it spans
  \<open>x = 800\<close> to \<open>1100\<close> and exceeds the right bound by 100.  The claim has it shifted
  back to span 700 to 1000.  The right-hand check of \<open>shiftAxis\<close> adds the excess instead
  of subtracting it: the box ends at 900 to 1200, further outside the canvas.
\<close>

theorem sync_right_overflow_pushed_out:
  "handleSyncSize syncSession
     = Inr (syncSession\<lparr> boxes := [boxA, \<lparr> ymin = 300, xmin = 900, ymax = 600, xmax = 1200 \<rparr>] \<rparr>)
   \<and> shiftAxis 800 1100 = (900, 1200)"
  by (simp add: handleSyncSize_def syncSession_def initialSession_def boxAt_def boxA_def
      cornerBox_def syncTarget_def shiftAxis_def Let_def fl_simps)













subsection \<open>Dimension-Sync followed by the organizer\<close>













text \<open>
  A sufficient condition on the boxes for the tests to have the same outcome: the sync
  resizes every box about its center without shifting or rounding, and no row test
  depends on whether it is made with the box's own height or with the source's.
\<close>

lemma centeredSync_sameTests:
  assumes "sel < length bs" and "centeredSync sel bs bs'" and "rowTestsKept sel bs"
    and "0 < height"
  shows "sameTests width height bs bs'"
proof -
  define H where "H = ymax (bs ! sel) - ymin (bs ! sel)"
  from assms(2) have len: "length bs' = length bs"
    and nth: "\<And>i. i < length bs \<Longrightarrow>
        bs' ! i = (if i = sel then bs ! i
                   else centeredOn (bs ! i) (xmax (bs ! sel) - xmin (bs ! sel)) H)"
    by (simp_all add: centeredSync_def list_all_iff H_def)
  have keep: "ymin (bs' ! i) + ymax (bs' ! i) = ymin (bs ! i) + ymax (bs ! i)
      \<and> xmin (bs' ! i) + xmax (bs' ! i) = xmin (bs ! i) + xmax (bs ! i)
      \<and> ymax (bs' ! i) - ymin (bs' ! i) = H" if "i < length bs" for i
    using nth[OF that] by (simp add: centeredOn_def H_def)
  have row: "(\<bar>(ymin q + ymax q) - (ymin p + ymax p)\<bar> < ymax q - ymin q)
         = (\<bar>(ymin q + ymax q) - (ymin p + ymax p)\<bar> < H)"
    if "p \<in> set bs" "q \<in> set bs" for p q
    using assms(3) that by (simp add: rowTestsKept_def list_all_iff H_def)
  have scale: "(\<bar>c2 / 2000 * height - c1 / 2000 * height\<bar> < h / 1000 * height * 0.5)
                 = (\<bar>c2 - c1\<bar> < h)" for c1 c2 h :: real
  proof -
    have "c2 / 2000 * height - c1 / 2000 * height = (c2 - c1) * (height / 2000)"
      by (simp add: field_simps)
    moreover have "h / 1000 * height * 0.5 = h * (height / 2000)" by simp
    moreover have "\<bar>(c2 - c1) * (height / 2000)\<bar> = \<bar>c2 - c1\<bar> * (height / 2000)"
      using assms(4) by (simp add: abs_mult)
    moreover have "0 < height / 2000" using assms(4) by simp
    ultimately show ?thesis by (simp only: mult_less_cancel_right_pos)
  qed
  have one: "(pix_cy p \<le> pix_cy q) = (pix_cy p' \<le> pix_cy q') \<and>
            (pix_cx p \<le> pix_cx q) = (pix_cx p' \<le> pix_cx q') \<and>
            (\<bar>pix_cy q - pix_cy p\<bar> < pix_h q * 0.5) = (\<bar>pix_cy q' - pix_cy p'\<bar> < pix_h q' * 0.5)"
    if p: "(p, p') \<in> set (zip (map (toPixelBox width height) bs) (map (toPixelBox width height) bs'))"
      and q: "(q, q') \<in> set (zip (map (toPixelBox width height) bs) (map (toPixelBox width height) bs'))"
    for p p' q q'
  proof -
    from p obtain i where i: "i < length bs" "p = toPixelBox width height (bs ! i)"
      "p' = toPixelBox width height (bs' ! i)"
      unfolding in_set_zip using len by auto
    from q obtain j where j: "j < length bs" "q = toPixelBox width height (bs ! j)"
      "q' = toPixelBox width height (bs' ! j)"
      unfolding in_set_zip using len by auto
    note ki = keep[OF i(1)] and kj = keep[OF j(1)]
    have cy: "pix_cy p' = pix_cy p" "pix_cy q' = pix_cy q"
      and cx: "pix_cx p' = pix_cx p" "pix_cx q' = pix_cx q"
      using ki kj by (simp_all add: i j toPixelBox_def)
    have t1: "(\<bar>pix_cy q - pix_cy p\<bar> < pix_h q * 0.5)
        = (\<bar>(ymin (bs ! j) + ymax (bs ! j)) - (ymin (bs ! i) + ymax (bs ! i))\<bar>
             < ymax (bs ! j) - ymin (bs ! j))"
      unfolding i j toPixelBox_def by (simp only: PixelBox.simps scale)
    have t2: "(\<bar>pix_cy q' - pix_cy p'\<bar> < pix_h q' * 0.5)
        = (\<bar>(ymin (bs ! j) + ymax (bs ! j)) - (ymin (bs ! i) + ymax (bs ! i))\<bar> < H)"
      unfolding i j toPixelBox_def using ki kj by (simp only: PixelBox.simps scale)
    from row[of "bs ! i" "bs ! j"] i(1) j(1) t1 t2 cy cx show ?thesis by simp
  qed
  show ?thesis
    unfolding sameTests_def Let_def list_all_iff using one by blast
qed

text \<open>
  The four boxes of \<open>unevenSession\<close> are a case: synced to the first box, those of the
  right column get 20 lower, and every row test has a margin of more than that.
\<close>

lemma unevenSession_centeredSync:
  "centeredSync 0 (boxes unevenSession)
     [boxA,
      \<lparr> ymin = 10, xmin = 400, ymax = 310, xmax = 700 \<rparr>,
      \<lparr> ymin = 400, xmin = 0, ymax = 700, xmax = 300 \<rparr>,
      \<lparr> ymin = 410, xmin = 400, ymax = 710, xmax = 700 \<rparr>]
   \<and> rowTestsKept 0 (boxes unevenSession)"
proof -
  have u: "[0..<4] = [0, 1, 2, 3]" by code_simp
  show ?thesis
    by (simp add: centeredSync_def rowTestsKept_def unevenSession_def initialSession_def
        boxA_def centeredOn_def u)
qed



section \<open>Properties of the slice pipeline\<close>

lemma upscale_fallback:
  "enhancementFails env i blob \<Longrightarrow> upscaleSliceWithAI env i blob = blob"
  by (auto simp: enhancementFails_def upscaleSliceWithAI_def
           split: Reply.splits option.splits Part.splits)

text \<open>
  The loop stops with an error exactly when the blob kept for some tile cannot be
  decoded; otherwise it appends one slice for every tile that has a crop, in order.
\<close>

lemma sliceLoop_fails:
  "\<not> list_all (tileDecodes env) ts \<Longrightarrow> sliceLoop env ts acc = Inl BitmapError"
proof (induction env ts acc rule: sliceLoop.induct)
  case (1 env acc)
  then show ?case by simp
next
  case (2 env i item rest acc)
  then show ?case
    by (auto simp: cropOf_def Let_def split: option.splits)
qed

lemma sliceLoop_returns:
  "list_all (tileDecodes env) ts \<Longrightarrow>
     \<exists>sl. sliceLoop env ts acc = Inr (acc @ sl)
          \<and> list_all2 (tileRecorded env) (filter (hasCrop env) ts) sl"
proof (induction env ts acc rule: sliceLoop.induct)
  case (1 env acc)
  then show ?case by simp
next
  case (2 env i item rest acc)
  show ?case
  proof (cases "cropOf env item")
    case None
    with 2 show ?thesis by (simp add: cropOf_def)
  next
    case (Some cropBlob)
    define up where "up = upscaleSliceWithAI env i cropBlob"
    from "2.prems" Some obtain bw bh where bm: "createImageBitmap env up = Some (bw, bh)"
      by (auto simp: up_def)
    define s0 where "s0 = \<lparr> slice_id = i, slice_url = createObjectURL env up, slice_blob = up,
      slice_row = row item, slice_col = col item, slice_width = bw, slice_height = bh \<rparr>"
    have step: "sliceLoop env ((i, item) # rest) acc = sliceLoop env rest (acc @ [s0])"
      using Some bm by (simp add: cropOf_def s0_def up_def[symmetric] Let_def)
    have rec0: "tileRecorded env (i, item) s0"
      using upscale_fallback[of env i cropBlob] bm
      by (auto simp: Some s0_def up_def[symmetric])
    from "2.prems" have "list_all (tileDecodes env) rest" by simp
    from "2.IH"(2)[OF Some[unfolded cropOf_def] up_def bm refl this, folded s0_def]
    obtain sl where sl: "sliceLoop env rest (acc @ [s0]) = Inr ((acc @ [s0]) @ sl)"
      "list_all2 (tileRecorded env) (filter (hasCrop env) rest) sl"
      by blast
    have r: "sliceLoop env ((i, item) # rest) acc = Inr (acc @ s0 # sl)"
      using step sl(1) by simp
    have f: "filter (hasCrop env) ((i, item) # rest) = (i, item) # filter (hasCrop env) rest"
      using Some by simp
    have "list_all2 (tileRecorded env) (filter (hasCrop env) ((i, item) # rest)) (s0 # sl)"
      unfolding f using rec0 sl(2) by (simp del: tileRecorded.simps)
    with r show ?thesis by blast
  qed
qed

text \<open>The tiles are the boxes: the organizer emits every box once.\<close>

lemma concat_clusterRows:
  "concat (clusterRows rws cur anchor rest) = concat rws @ cur @ rest"
  by (induction rest arbitrary: rws cur anchor) simp_all

lemma concat_buildRows: "concat (buildRows xs) = xs"
  by (cases xs) (simp_all add: buildRows_def concat_clusterRows)

lemma map_box_emitRow: "map box (emitRow (rowIndex, rowItems)) = sort_key pix_cx rowItems"
proof -
  have "box \<circ> (\<lambda>(colIndex, b). \<lparr> box = b, row = rowIndex, col = colIndex \<rparr>) = snd"
    by (auto simp: fun_eq_iff)
  then have "map box (emitRow (rowIndex, rowItems))
          = map snd (enumerate 0 (sort_key pix_cx rowItems))"
    by (simp add: emitRow_def)
  then show ?thesis by (simp only: map_snd_enumerate)
qed

lemma mset_emitRows:
  "mset (map box (concat (map emitRow (enumerate n rws)))) = mset (concat rws)"
proof (induction rws arbitrary: n)
  case Nil
  then show ?case by simp
next
  case (Cons r rws)
  have "mset (map box (concat (map emitRow (enumerate n (r # rws)))))
          = mset (map box (emitRow (n, r)))
            + mset (map box (concat (map emitRow (enumerate (Suc n) rws))))"
    by simp
  also have "\<dots> = mset r + mset (concat rws)"
    by (simp only: Cons.IH map_box_emitRow mset_sort)
  finally show ?case by simp
qed

lemma mset_sortedBoxes:
  "mset (map box (sortedBoxes (organizeBoxes bxs width height)))
     = mset (map (toPixelBox width height) bxs)"
proof -
  let ?ps = "sort_key pix_cy (map (toPixelBox width height) bxs)"
  have "sortedBoxes (organizeBoxes bxs width height)
          = concat (map emitRow (enumerate 0 (buildRows ?ps)))"
    by (simp add: organizeBoxes_def Let_def)
  then have "mset (map box (sortedBoxes (organizeBoxes bxs width height)))
          = mset (concat (buildRows ?ps))"
    by (simp only: mset_emitRows)
  also have "\<dots> = mset (map (toPixelBox width height) bxs)"
    by (simp only: concat_buildRows mset_sort)
  finally show ?thesis .
qed

lemma mset_tiles:
  assumes "loadImage env = Some (imgWidth, imgHeight)"
  shows "mset (map (\<lambda>t. box (snd t)) (tiles env bxs))
           = mset (map (toPixelBox (real imgWidth) (real imgHeight)) bxs)"
proof -
  have "map (\<lambda>t. box (snd t)) (tiles env bxs)
          = map box (map snd (tiles env bxs))" by simp
  also have "\<dots> = map box (sortedBoxes (organizeBoxes bxs (real imgWidth) (real imgHeight)))"
    by (simp only: tiles_def assms option.case prod.case map_snd_enumerate)
  finally show ?thesis by (simp only: mset_sortedBoxes)
qed

text \<open>
  An empty list of boxes is not the only way to fail: \<open>generateSlices\<close> raises
  "Canvas error" for a non-empty list when the canvas gives no 2D context.
\<close>

theorem generateSlices_canvas_counterexample:
  "generateSlices noCanvasEnv [boxA] = Inl CanvasError \<and> [boxA] \<noteq> []"
  by (simp add: generateSlices_def noCanvasEnv_def)

text \<open>
  An enhancement that answers with an image that cannot be decoded is fatal: the
  enhancement of the one tile does not fail, its crop could be decoded, and the rejected
  \<^verbatim>\<open>createImageBitmap\<close> fails the whole batch.
\<close>

lemma generateSlices_undecodable_enhancement:
  "generateSlices garbledEnv [boxA] = Inl BitmapError
   \<and> \<not> enhancementFails garbledEnv 0 7
   \<and> upscaleSliceWithAI garbledEnv 0 7 = 107
   \<and> createImageBitmap garbledEnv 7 = Some (300, 300)
   \<and> createImageBitmap garbledEnv 107 = None"
  by (simp add: generateSlices_def garbledEnv_def organizeBoxes_def toPixelBox_def buildRows_def
      emitRow_def maxColsOf_def upscaleSliceWithAI_def enhancementFails_def boxA_def Let_def)

text \<open>
  Claim C5, with the failures of the browser taken into account.  \<open>generateSlices\<close>
  fails exactly when the image does not load, the list of boxes is empty, the canvas
  gives no 2D context, or the blob kept for some tile cannot be decoded.  When it
  returns, the result has one slice for every tile whose crop gave a blob, in sequence
  order with the organizer's row and column, and the tiles are the boxes, each once.  A failing enhancement call makes
  \<open>upscaleSliceWithAI\<close> return the crop, so that tile carries the unenhanced crop and the
  crop's own pixel size, and the batch fails on it only if the crop itself cannot be
  decoded.
\<close>

theorem generateSlices_outcome:
  "((\<exists>e. generateSlices env bxs = Inl e) \<longleftrightarrow>
      (loadImage env = None \<or> bxs = [] \<or> \<not> getContext2d env
       \<or> \<not> list_all (tileDecodes env) (tiles env bxs)))
   \<and> (\<forall>r. generateSlices env bxs = Inr r \<longrightarrow>
         list_all2 (tileRecorded env) (filter (hasCrop env) (tiles env bxs)) (slices r))
   \<and> (enhancementFails env i cropBlob \<longrightarrow> upscaleSliceWithAI env i cropBlob = cropBlob)
   \<and> (loadImage env = Some (imgWidth, imgHeight) \<longrightarrow>
         mset (map (\<lambda>t. box (snd t)) (tiles env bxs))
           = mset (map (toPixelBox (real imgWidth) (real imgHeight)) bxs))"
proof (cases "loadImage env")
  case None
  then show ?thesis
    using upscale_fallback[of env i cropBlob] by (simp add: generateSlices_def)
next
  case (Some dims)
  note mt = mset_tiles[of env imgWidth imgHeight bxs]
  obtain imgWidth imgHeight where dims: "dims = (imgWidth, imgHeight)" by (cases dims)
  let ?org = "organizeBoxes bxs (real imgWidth) (real imgHeight)"
  have t: "tiles env bxs = enumerate 0 (sortedBoxes ?org)"
    by (simp add: tiles_def Some dims)
  show ?thesis
  proof (cases "bxs = [] \<or> \<not> getContext2d env")
    case True
    then have "\<exists>e. generateSlices env bxs = Inl e"
      by (auto simp: generateSlices_def Some dims Let_def)
    with True show ?thesis
      using upscale_fallback[of env i cropBlob] mt by auto
  next
    case False
    then have g: "generateSlices env bxs =
        (case sliceLoop env (tiles env bxs) [] of
           Inl e \<Rightarrow> Inl e
         | Inr sl \<Rightarrow> Inr \<lparr> slices = sl,
                           dimensions = \<lparr> dim_rows = rows ?org, dim_cols = cols ?org \<rparr> \<rparr>)"
      by (simp add: generateSlices_def Some dims Let_def t)
    show ?thesis
    proof (cases "list_all (tileDecodes env) (tiles env bxs)")
      case True
      from sliceLoop_returns[OF this, of "[]"] obtain sl
        where sl: "sliceLoop env (tiles env bxs) [] = Inr sl"
          "list_all2 (tileRecorded env) (filter (hasCrop env) (tiles env bxs)) sl"
        by auto
      have "generateSlices env bxs
              = Inr \<lparr> slices = sl,
                      dimensions = \<lparr> dim_rows = rows ?org, dim_cols = cols ?org \<rparr> \<rparr>"
        using g sl(1) by simp
      with sl(2) True False Some show ?thesis
        using upscale_fallback[of env i cropBlob] mt by auto
    next
      case nd: False
      from sliceLoop_fails[OF this, of "[]"] g
      have "generateSlices env bxs = Inl BitmapError" by simp
      with nd show ?thesis
        using upscale_fallback[of env i cropBlob] mt by auto
    qed
  qed
qed

theorem generateSlices_outcome_witness:
  "loadImage flakyEnv \<noteq> None \<and> [boxB, boxA] \<noteq> [] \<and> getContext2d flakyEnv
   \<and> list_all (tileDecodes flakyEnv) (tiles flakyEnv [boxB, boxA])
   \<and> enhancementFails flakyEnv 0 7
   \<and> generateSlices flakyEnv [boxB, boxA]
       = Inr \<lparr> slices =
                 [\<lparr> slice_id = 0, slice_url = ''blob:tile'', slice_blob = 7,
                    slice_row = 0, slice_col = 0, slice_width = 300, slice_height = 300 \<rparr>,
                  \<lparr> slice_id = 1, slice_url = ''blob:tile'', slice_blob = 107,
                    slice_row = 0, slice_col = 1, slice_width = 1024, slice_height = 1024 \<rparr>],
               dimensions = \<lparr> dim_rows = 1, dim_cols = 2 \<rparr> \<rparr>
   \<and> list_all2 (tileRecorded flakyEnv) (filter (hasCrop flakyEnv) (tiles flakyEnv [boxB, boxA]))
        [\<lparr> slice_id = 0, slice_url = ''blob:tile'', slice_blob = 7,
           slice_row = 0, slice_col = 0, slice_width = 300, slice_height = 300 \<rparr>,
         \<lparr> slice_id = 1, slice_url = ''blob:tile'', slice_blob = 107,
           slice_row = 0, slice_col = 1, slice_width = 1024, slice_height = 1024 \<rparr>]
   \<and> upscaleSliceWithAI flakyEnv 0 7 = 7"
proof -
  have h: "loadImage flakyEnv \<noteq> None" "[boxB, boxA] \<noteq> []" "getContext2d flakyEnv"
    by (simp_all add: flakyEnv_def)
  have f: "enhancementFails flakyEnv 0 7"
    by (simp add: enhancementFails_def flakyEnv_def)
  have g: "generateSlices flakyEnv [boxB, boxA]
       = Inr \<lparr> slices =
                 [\<lparr> slice_id = 0, slice_url = ''blob:tile'', slice_blob = 7,
                    slice_row = 0, slice_col = 0, slice_width = 300, slice_height = 300 \<rparr>,
                  \<lparr> slice_id = 1, slice_url = ''blob:tile'', slice_blob = 107,
                    slice_row = 0, slice_col = 1, slice_width = 1024, slice_height = 1024 \<rparr>],
               dimensions = \<lparr> dim_rows = 1, dim_cols = 2 \<rparr> \<rparr>"
    by (simp add: generateSlices_def flakyEnv_def organizeBoxes_def toPixelBox_def buildRows_def
        emitRow_def maxColsOf_def upscaleSliceWithAI_def boxA_def boxB_def Let_def)
  note t = generateSlices_outcome[of flakyEnv "[boxB, boxA]" 0 7 1000 1000]
  from t g have d: "list_all (tileDecodes flakyEnv) (tiles flakyEnv [boxB, boxA])"
    by auto
  from t g have r: "list_all2 (tileRecorded flakyEnv)
        (filter (hasCrop flakyEnv) (tiles flakyEnv [boxB, boxA]))
        [\<lparr> slice_id = 0, slice_url = ''blob:tile'', slice_blob = 7,
           slice_row = 0, slice_col = 0, slice_width = 300, slice_height = 300 \<rparr>,
         \<lparr> slice_id = 1, slice_url = ''blob:tile'', slice_blob = 107,
           slice_row = 0, slice_col = 1, slice_width = 1024, slice_height = 1024 \<rparr>]"
    by (auto simp del: tileRecorded.simps)
  from t f have u: "upscaleSliceWithAI flakyEnv 0 7 = 7" by blast
  from h d f g r u show ?thesis by (intro conjI)
qed

end
